theory Spec2Isabelle
  imports Complex_Main "HOL-Library.Log_Nat"
begin

section \<open>Python values\<close>

text \<open>
  The app is dynamically typed: sensor states and configuration entries are strings,
  numbers, booleans or \<^verbatim>\<open>None\<close>. A finite float is the rational number it denotes;
  the sign of a zero is not kept (the app never observes it: it only truncates floats
  to integers, compares them, and divisions by either zero raise).
\<close>

datatype pyfloat = Fin rat | PInf | NInf | NaN

datatype pyval = PNone | PBool bool | PInt int | PFloat pyfloat | PStr string

datatype pynum = NInt int | NFloat pyfloat

datatype error = KeyError | TypeError | ValueError | OverflowError | ZeroDivisionError

definition bind_res :: "error + 'a \<Rightarrow> ('a \<Rightarrow> error + 'b) \<Rightarrow> error + 'b" where
  "bind_res m f = (case m of Inl e \<Rightarrow> Inl e | Inr x \<Rightarrow> f x)"

subsection \<open>Binary64 rounding\<close>

text \<open>Round to the nearest integer, ties to the even one.\<close>

definition rhe :: "rat \<Rightarrow> int" where
  "rhe x = (let f = \<lfloor>x\<rfloor>; d = x - of_int f in
     if d < 1 / 2 then f else if 1 / 2 < d then f + 1 else if even f then f else f + 1)"

text \<open>The binary exponent \<open>\<lfloor>log\<^sub>2 \<bar>x\<bar>\<rfloor>\<close> of a rational \<open>x \<noteq> 0\<close>.\<close>

definition expo :: "rat \<Rightarrow> int" where
  "expo x = (let (p, q) = quotient_of \<bar>x\<bar>; k = bitlen p - bitlen q in
     if 2 powi k \<le> \<bar>x\<bar> then k else k - 1)"

text \<open>
  The IEEE 754 binary64 number nearest to \<open>x\<close> (ties to even). The significand \<open>m\<close> has
  53 bits, its unit is \<open>2\<^sup>u\<close>; below \<open>2\<^sup>-\<^sup>1\<^sup>0\<^sup>2\<^sup>2\<close> the unit stays \<open>2\<^sup>-\<^sup>1\<^sup>0\<^sup>7\<^sup>4\<close> (gradual
  underflow); a rounded magnitude of \<open>2\<^sup>1\<^sup>0\<^sup>2\<^sup>4\<close> or more is an infinity.
\<close>

definition rd :: "rat \<Rightarrow> pyfloat" where
  "rd x = (if x = 0 then Fin 0 else
     let e = expo x;
         u = max e (- 1022) - 52;
         m = rhe (\<bar>x\<bar> / 2 powi u) in
     if 1024 \<le> e \<or> (e = 1023 \<and> m = 2 ^ 53) then (if 0 < x then PInf else NInf)
     else Fin ((if 0 < x then 1 else - 1) * of_int m * 2 powi u))"

text \<open>Bounds used in the error analysis: half the least positive float, and a magnitude
  below which no rounding overflows.\<close>

definition tiny :: rat where
  "tiny = 2 powi (- 1075)"

definition huge :: rat where
  "huge = 2 powi 1023"

subsection \<open>Float arithmetic\<close>

fun fneg :: "pyfloat \<Rightarrow> pyfloat" where
  "fneg (Fin r) = Fin (- r)"
| "fneg PInf = NInf"
| "fneg NInf = PInf"
| "fneg NaN = NaN"

fun fadd :: "pyfloat \<Rightarrow> pyfloat \<Rightarrow> pyfloat" where
  "fadd (Fin a) (Fin b) = rd (a + b)"
| "fadd NaN _ = NaN"
| "fadd _ NaN = NaN"
| "fadd PInf NInf = NaN"
| "fadd NInf PInf = NaN"
| "fadd PInf _ = PInf"
| "fadd _ PInf = PInf"
| "fadd NInf _ = NInf"
| "fadd _ NInf = NInf"

definition fsub :: "pyfloat \<Rightarrow> pyfloat \<Rightarrow> pyfloat" where
  "fsub a b = fadd a (fneg b)"

fun fsgn :: "pyfloat \<Rightarrow> int" where
  "fsgn (Fin r) = (if r = 0 then 0 else if 0 < r then 1 else - 1)"
| "fsgn PInf = 1"
| "fsgn NInf = - 1"
| "fsgn NaN = 0"

definition inf_of_sign :: "int \<Rightarrow> pyfloat" where
  "inf_of_sign s = (if s = 0 then NaN else if 0 < s then PInf else NInf)"

fun fmul :: "pyfloat \<Rightarrow> pyfloat \<Rightarrow> pyfloat" where
  "fmul (Fin a) (Fin b) = rd (a * b)"
| "fmul NaN _ = NaN"
| "fmul _ NaN = NaN"
| "fmul a b = inf_of_sign (fsgn a * fsgn b)"

text \<open>Python raises on a zero divisor before looking at the dividend.\<close>

fun fdiv :: "pyfloat \<Rightarrow> pyfloat \<Rightarrow> error + pyfloat" where
  "fdiv a (Fin b) =
     (if b = 0 then Inl ZeroDivisionError
      else case a of Fin x \<Rightarrow> Inr (rd (x / b))
         | NaN \<Rightarrow> Inr NaN
         | _ \<Rightarrow> Inr (inf_of_sign (fsgn a * fsgn (Fin b))))"
| "fdiv NaN _ = Inr NaN"
| "fdiv _ NaN = Inr NaN"
| "fdiv (Fin a) _ = Inr (Fin 0)"
| "fdiv _ _ = Inr NaN"

fun fle :: "pyfloat \<Rightarrow> pyfloat \<Rightarrow> bool" where
  "fle NaN _ = False"
| "fle _ NaN = False"
| "fle (Fin a) (Fin b) = (a \<le> b)"
| "fle NInf _ = True"
| "fle _ PInf = True"
| "fle _ _ = False"

fun flt :: "pyfloat \<Rightarrow> pyfloat \<Rightarrow> bool" where
  "flt NaN _ = False"
| "flt _ NaN = False"
| "flt (Fin a) (Fin b) = (a < b)"
| "flt PInf _ = False"
| "flt _ NInf = False"
| "flt _ _ = True"

fun feq :: "pyfloat \<Rightarrow> pyfloat \<Rightarrow> bool" where
  "feq (Fin a) (Fin b) = (a = b)"
| "feq PInf PInf = True"
| "feq NInf NInf = True"
| "feq _ _ = False"

subsection \<open>The numeric tower\<close>

text \<open>\<^verbatim>\<open>bool\<close> is a subclass of \<^verbatim>\<open>int\<close>: \<^verbatim>\<open>True\<close> is 1.\<close>

fun as_num :: "pyval \<Rightarrow> pynum option" where
  "as_num (PBool b) = Some (NInt (if b then 1 else 0))"
| "as_num (PInt n) = Some (NInt n)"
| "as_num (PFloat f) = Some (NFloat f)"
| "as_num _ = None"

fun of_num :: "pynum \<Rightarrow> pyval" where
  "of_num (NInt n) = PInt n"
| "of_num (NFloat f) = PFloat f"

text \<open>Converting an int to a float rounds, and raises when the int is too large.\<close>

definition float_of_int :: "int \<Rightarrow> error + pyfloat" where
  "float_of_int n = (case rd (of_int n) of Fin r \<Rightarrow> Inr (Fin r) | _ \<Rightarrow> Inl OverflowError)"

fun to_float :: "pynum \<Rightarrow> error + pyfloat" where
  "to_float (NInt n) = float_of_int n"
| "to_float (NFloat f) = Inr f"

text \<open>The exact value of a number, for comparisons (Python compares int and float exactly).\<close>

fun exact :: "pynum \<Rightarrow> pyfloat" where
  "exact (NInt n) = Fin (of_int n)"
| "exact (NFloat f) = f"

definition float_op :: "(pyfloat \<Rightarrow> pyfloat \<Rightarrow> error + pyfloat) \<Rightarrow> pynum \<Rightarrow> pynum \<Rightarrow> error + pynum" where
  "float_op f a b =
     bind_res (to_float a) (\<lambda>x. bind_res (to_float b) (\<lambda>y. bind_res (f x y) (\<lambda>z. Inr (NFloat z))))"

fun num_add :: "pynum \<Rightarrow> pynum \<Rightarrow> error + pynum" where
  "num_add (NInt a) (NInt b) = Inr (NInt (a + b))"
| "num_add a b = float_op (\<lambda>x y. Inr (fadd x y)) a b"

fun num_sub :: "pynum \<Rightarrow> pynum \<Rightarrow> error + pynum" where
  "num_sub (NInt a) (NInt b) = Inr (NInt (a - b))"
| "num_sub a b = float_op (\<lambda>x y. Inr (fsub x y)) a b"

fun num_mul :: "pynum \<Rightarrow> pynum \<Rightarrow> error + pynum" where
  "num_mul (NInt a) (NInt b) = Inr (NInt (a * b))"
| "num_mul a b = float_op (\<lambda>x y. Inr (fmul x y)) a b"

text \<open>True division of two ints is correctly rounded and raises on overflow.\<close>

fun num_truediv :: "pynum \<Rightarrow> pynum \<Rightarrow> error + pynum" where
  "num_truediv (NInt a) (NInt b) =
     (if b = 0 then Inl ZeroDivisionError
      else case rd (of_int a / of_int b) of Fin r \<Rightarrow> Inr (NFloat (Fin r)) | _ \<Rightarrow> Inl OverflowError)"
| "num_truediv a b = float_op fdiv a b"

subsection \<open>Operators on values\<close>

fun str_lt :: "string \<Rightarrow> string \<Rightarrow> bool" where
  "str_lt [] [] = False"
| "str_lt [] (y # ys) = True"
| "str_lt (x # xs) [] = False"
| "str_lt (x # xs) (y # ys) =
     (if (of_char x :: nat) < of_char y then True
      else if x = y then str_lt xs ys else False)"

text \<open>\<^verbatim>\<open>==\<close> never raises; values of different kinds are unequal.\<close>

definition py_eq :: "pyval \<Rightarrow> pyval \<Rightarrow> bool" where
  "py_eq x y = (case (as_num x, as_num y) of
       (Some a, Some b) \<Rightarrow> feq (exact a) (exact b)
     | (None, None) \<Rightarrow> x = y
     | _ \<Rightarrow> False)"

definition py_lt :: "pyval \<Rightarrow> pyval \<Rightarrow> error + bool" where
  "py_lt x y = (case (x, y) of
       (PStr s, PStr t) \<Rightarrow> Inr (str_lt s t)
     | _ \<Rightarrow> (case (as_num x, as_num y) of
           (Some a, Some b) \<Rightarrow> Inr (flt (exact a) (exact b))
         | _ \<Rightarrow> Inl TypeError))"

definition py_le :: "pyval \<Rightarrow> pyval \<Rightarrow> error + bool" where
  "py_le x y = (case (x, y) of
       (PStr s, PStr t) \<Rightarrow> Inr (\<not> str_lt t s)
     | _ \<Rightarrow> (case (as_num x, as_num y) of
           (Some a, Some b) \<Rightarrow> Inr (fle (exact a) (exact b))
         | _ \<Rightarrow> Inl TypeError))"

text \<open>\<^verbatim>\<open>x in xs\<close> on a list: some element equals \<open>x\<close>.\<close>

definition py_in :: "pyval \<Rightarrow> pyval list \<Rightarrow> bool" where
  "py_in x xs = list_ex (py_eq x) xs"

definition num_op :: "(pynum \<Rightarrow> pynum \<Rightarrow> error + pynum) \<Rightarrow> pyval \<Rightarrow> pyval \<Rightarrow> error + pyval" where
  "num_op f x y = (case (as_num x, as_num y) of
       (Some a, Some b) \<Rightarrow> bind_res (f a b) (\<lambda>z. Inr (of_num z))
     | _ \<Rightarrow> Inl TypeError)"

text \<open>\<^verbatim>\<open>+\<close> concatenates two strings.\<close>

definition py_add :: "pyval \<Rightarrow> pyval \<Rightarrow> error + pyval" where
  "py_add x y = (case (x, y) of
       (PStr s, PStr t) \<Rightarrow> Inr (PStr (s @ t))
     | _ \<Rightarrow> num_op num_add x y)"

definition py_sub :: "pyval \<Rightarrow> pyval \<Rightarrow> error + pyval" where
  "py_sub x y = num_op num_sub x y"

definition py_truediv :: "pyval \<Rightarrow> pyval \<Rightarrow> error + pyval" where
  "py_truediv x y = num_op num_truediv x y"

text \<open>\<^verbatim>\<open>*\<close> repeats a string an int number of times.\<close>

definition py_mul :: "pyval \<Rightarrow> pyval \<Rightarrow> error + pyval" where
  "py_mul x y = (case (x, as_num y, as_num x, y) of
       (PStr s, Some (NInt n), _, _) \<Rightarrow> Inr (PStr (concat (replicate (nat n) s)))
     | (_, _, Some (NInt n), PStr s) \<Rightarrow> Inr (PStr (concat (replicate (nat n) s)))
     | _ \<Rightarrow> num_op num_mul x y)"

text \<open>\<^verbatim>\<open>max(a, b)\<close> keeps \<open>a\<close> unless \<open>b > a\<close>; \<^verbatim>\<open>min(a, b)\<close> keeps \<open>a\<close> unless \<open>b < a\<close>.\<close>

definition py_max :: "pyval \<Rightarrow> pyval \<Rightarrow> error + pyval" where
  "py_max a b = bind_res (py_lt a b) (\<lambda>c. Inr (if c then b else a))"

definition py_min :: "pyval \<Rightarrow> pyval \<Rightarrow> error + pyval" where
  "py_min a b = bind_res (py_lt b a) (\<lambda>c. Inr (if c then b else a))"

fun truthy :: "pyval \<Rightarrow> bool" where
  "truthy PNone = False"
| "truthy (PBool b) = b"
| "truthy (PInt n) = (n \<noteq> 0)"
| "truthy (PFloat f) = (f \<noteq> Fin 0)"
| "truthy (PStr s) = (s \<noteq> [])"

subsection \<open>Conversions\<close>

definition trunc_rat :: "rat \<Rightarrow> int" where
  "trunc_rat r = (if 0 \<le> r then \<lfloor>r\<rfloor> else - \<lfloor>- r\<rfloor>)"

text \<open>The built-in \<^verbatim>\<open>int\<close> on a float.\<close>

fun int_of_float :: "pyfloat \<Rightarrow> error + int" where
  "int_of_float (Fin r) = Inr (trunc_rat r)"
| "int_of_float NaN = Inl ValueError"
| "int_of_float _ = Inl OverflowError"

text \<open>The built-in \<^verbatim>\<open>int\<close> on a number (the app passes it no other value).\<close>

fun py_int :: "pyval \<Rightarrow> error + int" where
  "py_int (PFloat f) = int_of_float f"
| "py_int (PInt n) = Inr n"
| "py_int (PBool b) = Inr (if b then 1 else 0)"
| "py_int _ = Inl TypeError"

text \<open>
  The built-in \<^verbatim>\<open>float\<close>. Its parser of strings is Python's, not the app's: it is the
  parameter \<open>fs\<close>, which returns \<open>None\<close> where Python raises \<^verbatim>\<open>ValueError\<close>.
\<close>

fun py_float :: "(string \<Rightarrow> pyfloat option) \<Rightarrow> pyval \<Rightarrow> error + pyfloat" where
  "py_float fs PNone = Inl TypeError"
| "py_float fs (PBool b) = Inr (Fin (if b then 1 else 0))"
| "py_float fs (PInt n) = float_of_int n"
| "py_float fs (PFloat f) = Inr f"
| "py_float fs (PStr s) = (case fs s of None \<Rightarrow> Inl ValueError | Some f \<Rightarrow> Inr f)"

text \<open>
  \<^verbatim>\<open>FullAutomationLight.int\<close>: the sentinels give 0; a value that converts gives its
  integer part; on any exception the value itself is returned.
\<close>

definition int_conv :: "(string \<Rightarrow> pyfloat option) \<Rightarrow> pyval \<Rightarrow> pyval" where
  "int_conv fs val =
     (if py_in val [PStr ''unknown'', PStr ''unavailable''] then PInt 0
      else case bind_res (py_float fs val) int_of_float of
             Inr n \<Rightarrow> PInt n
           | Inl _ \<Rightarrow> val)"

section \<open>The app's state\<close>

text \<open>
  The host runtime is read through \<^verbatim>\<open>get_state\<close> and \<^verbatim>\<open>exists\<close>; \<open>float_str\<close> is
  Python's parser of float literals (see \<open>py_float\<close>).
\<close>

record env =
  get_state :: "string \<Rightarrow> pyval"
  entity_exists :: "string \<Rightarrow> bool"
  float_str :: "string \<Rightarrow> pyfloat option"

text \<open>A scene binding is the configured dict as it is: any of its keys may be missing.\<close>

record scene =
  scene_entity :: "string option"
  scene_trigger_entity :: "string option"
  scene_trigger_value :: "pyval option"
  scene_force_light_on :: "pyval option"

record nl_binding =
  nl_name :: string
  nl_boost_brightness_pct :: pyval
  nl_lights_entity :: "string option"
  nl_natural_entity :: "string option"

text \<open>
  A room dict. An entity that is \<^verbatim>\<open>False\<close> (the default) is \<open>None\<close>; the keys
  \<^verbatim>\<open>natural_lighting\<close> and \<^verbatim>\<open>scenes\<close> are \<open>None\<close> when absent.
\<close>

record room =
  occupancy_entity :: "string option"
  lights_entity :: string
  occupancy_off_delay :: pyval
  luminance_entity :: "string option"
  luminance_limit :: pyval
  luminance_hysteresis :: pyval
  hight_luminance_off_light :: bool
  occupancy :: bool
  low_light :: bool
  is_light_on :: bool
  natural_lighting :: "nl_binding list option"
  scenes :: "scene list option"

record mode =
  max_brightness :: pyval
  min_brightness :: pyval
  max_kelvin :: pyval
  min_kelvin :: pyval
  brightness :: pyval
  kelvin :: pyval

record nl_config =
  modes :: "(string \<times> mode) list"
  sun_entity :: string
  min_elevation_for_brightness :: pyval
  max_elevation_for_brightness :: pyval
  min_elevation_for_kelvin :: pyval
  max_elevation_for_kelvin :: pyval
  sun_elevation :: pyval

text \<open>
  A service call on an entity: \<^verbatim>\<open>turn_on\<close> with the keyword arguments brightness,
  kelvin and transition that were passed, or \<^verbatim>\<open>turn_off\<close> with its transition.
\<close>

datatype call =
  Turn_on string "pyval option" "pyval option" "pyval option"
| Turn_off string "pyval option"


text \<open>
  The app object. Dicts keep their insertion order, so \<open>rooms\<close>, \<open>modes\<close> and
  \<open>transitions\<close> are association lists; \<open>app_natural_lighting\<close> is \<open>None\<close> where the source has \<^verbatim>\<open>False\<close>;
  \<open>calls\<close> is the trace of the service calls made so far.
\<close>

record app =
  rooms :: "(string \<times> room) list"
  app_natural_lighting :: "nl_config option"
  transitions :: "(string \<times> pyval) list"
  calls :: "call list"

definition put_room :: "app \<Rightarrow> string \<Rightarrow> room \<Rightarrow> app" where
  "put_room a room_name r =
     a\<lparr>rooms := map (\<lambda>(k, v). if k = room_name then (k, r) else (k, v)) (rooms a)\<rparr>"

definition emit :: "app \<Rightarrow> call list \<Rightarrow> app" where
  "emit a cs = a\<lparr>calls := calls a @ cs\<rparr>"

text \<open>
  The sensor named by an entity entry, when the entry is true: \<^verbatim>\<open>False\<close> and the
  empty string are false.
\<close>

fun sensor :: "string option \<Rightarrow> string option" where
  "sensor None = None"
| "sensor (Some s) = (if s = [] then None else Some s)"

section \<open>The action dispatcher\<close>

definition domain_of :: "string \<Rightarrow> string" where
  "domain_of s = takeWhile (\<lambda>c. c \<noteq> CHR ''.'') s"

definition with_transition :: "pyval \<Rightarrow> pyval option" where
  "with_transition t = (if t = PNone then None else Some t)"

text \<open>
  The loop over the scenes in \<^verbatim>\<open>set_light\<close>: the call of the first scene whose trigger
  entity has the trigger value, \<open>None\<close> when no scene matches.
\<close>

fun scene_loop :: "env \<Rightarrow> pyval \<Rightarrow> scene list \<Rightarrow> error + call option" where
  "scene_loop e t [] = Inr None"
| "scene_loop e t (s # ss) =
     (case scene_trigger_entity s of None \<Rightarrow> Inl KeyError
      | Some te \<Rightarrow>
     (case scene_trigger_value s of None \<Rightarrow> Inl KeyError
      | Some tv \<Rightarrow>
        if py_eq (get_state e te) tv then
          (case scene_entity s of None \<Rightarrow> Inl KeyError
           | Some se \<Rightarrow>
               Inr (Some (if domain_of se = ''script'' \<or> t = PNone
                          then Turn_on se None None None
                          else Turn_on se None None (Some t))))
        else scene_loop e t ss))"

definition clamp_brightness :: "int \<Rightarrow> int" where
  "clamp_brightness n = (let n1 = (if 255 < n then 255 else n) in if n1 < 1 then 1 else n1)"

text \<open>
  The brightness of one binding: \<^verbatim>\<open>int(brightness + (brightness / 100 * boost))\<close>,
  clamped, when the boost is not 0.
\<close>

definition boost_brightness :: "pyval \<Rightarrow> pyval \<Rightarrow> error + pyval" where
  "boost_brightness b boost =
     (if \<not> py_eq boost (PInt 0) then
        bind_res (py_truediv b (PInt 100)) (\<lambda>q.
        bind_res (py_mul q boost) (\<lambda>m.
        bind_res (py_add b m) (\<lambda>s.
        bind_res (py_int s) (\<lambda>n.
        Inr (PInt (clamp_brightness n))))))
      else Inr b)"

definition nl_step :: "(string \<times> mode) list \<Rightarrow> pyval \<Rightarrow> room \<Rightarrow> nl_binding \<Rightarrow> error + call" where
  "nl_step ms t r nl =
     (case map_of ms (nl_name nl) of None \<Rightarrow> Inl KeyError
      | Some m \<Rightarrow>
          bind_res (boost_brightness (brightness m) (nl_boost_brightness_pct nl)) (\<lambda>b.
            Inr (Turn_on
              (case nl_lights_entity nl of Some l \<Rightarrow> l | None \<Rightarrow> lights_entity r)
              (Some b) (Some (kelvin m)) (with_transition t))))"

text \<open>The loop over the bindings: the calls made, and the exception that ended it.\<close>

fun nl_loop :: "(string \<times> mode) list \<Rightarrow> pyval \<Rightarrow> room \<Rightarrow> nl_binding list \<Rightarrow> call list \<times> error option" where
  "nl_loop ms t r [] = ([], None)"
| "nl_loop ms t r (nl # nls) =
     (case nl_step ms t r nl of
        Inl err \<Rightarrow> ([], Some err)
      | Inr c \<Rightarrow> (let (cs, err) = nl_loop ms t r nls in (c # cs, err)))"

definition plain_on :: "pyval \<Rightarrow> room \<Rightarrow> call" where
  "plain_on t r = Turn_on (lights_entity r) None None (with_transition t)"

text \<open>
  \<^verbatim>\<open>set_light\<close>. The result is the exception raised, if any, and the app with the
  calls made until then.
\<close>

definition set_light :: "env \<Rightarrow> app \<Rightarrow> string \<Rightarrow> string \<Rightarrow> error option \<times> app" where
  "set_light e a room_name trigger =
     (let transition = (case map_of (transitions a) trigger of None \<Rightarrow> PInt 1 | Some t \<Rightarrow> t) in
      case map_of (rooms a) room_name of None \<Rightarrow> (Some KeyError, a)
      | Some r \<Rightarrow>
        if is_light_on r then
          (case scene_loop e transition (case scenes r of None \<Rightarrow> [] | Some ss \<Rightarrow> ss) of
             Inl err \<Rightarrow> (Some err, a)
           | Inr (Some c) \<Rightarrow> (None, emit a [c])
           | Inr None \<Rightarrow>
              (case (app_natural_lighting a, natural_lighting r) of
                 (Some nlc, Some (nl # nls)) \<Rightarrow>
                   (let (cs, err) = nl_loop (modes nlc) transition r (nl # nls)
                    in (err, emit a cs))
               | _ \<Rightarrow> (None, emit a [plain_on transition r])))
        else
          (case map_of (transitions a) ''off'' of None \<Rightarrow> (Some KeyError, a)
           | Some t \<Rightarrow> (None, emit a [Turn_off (lights_entity r) (with_transition t)])))"

section \<open>The decision engine\<close>

text \<open>Lines 287-289: the occupancy flag follows the occupancy sensor when there is one.\<close>

definition refresh_occupancy :: "env \<Rightarrow> room \<Rightarrow> room" where
  "refresh_occupancy e r =
     (case sensor (occupancy_entity r) of
        Some s \<Rightarrow>
          r\<lparr>occupancy :=
              py_in (get_state e s)
                [PStr ''on'', PStr ''home'', PBool True, PStr ''true'', PStr ''True'']\<rparr>
      | None \<Rightarrow> r)"

text \<open>Lines 291-301: the low-light flag follows the luminance sensor, with hysteresis.\<close>

definition refresh_low_light :: "env \<Rightarrow> room \<Rightarrow> error + room" where
  "refresh_low_light e r =
     (case sensor (luminance_entity r) of
        Some s \<Rightarrow>
          bind_res
            (if low_light r
             then py_add (int_conv (float_str e) (luminance_limit r))
                         (int_conv (float_str e) (luminance_hysteresis r))
             else py_sub (int_conv (float_str e) (luminance_limit r))
                         (int_conv (float_str e) (luminance_hysteresis r)))
            (\<lambda>limit.
               bind_res (py_le (int_conv (float_str e) (get_state e s)) limit)
                 (\<lambda>b. Inr (r\<lparr>low_light := b\<rparr>)))
      | None \<Rightarrow> Inr r)"

text \<open>Lines 306-312: is a scene with \<^verbatim>\<open>scene_force_light_on\<close> active?\<close>

fun force_loop :: "env \<Rightarrow> scene list \<Rightarrow> error + bool" where
  "force_loop e [] = Inr False"
| "force_loop e (s # ss) =
     (case scene_trigger_entity s of None \<Rightarrow> Inl KeyError
      | Some te \<Rightarrow>
     (case scene_trigger_value s of None \<Rightarrow> Inl KeyError
      | Some tv \<Rightarrow>
        if py_eq (get_state e te) tv \<and>
           (case scene_force_light_on s of None \<Rightarrow> False | Some f \<Rightarrow> truthy f)
        then Inr True
        else force_loop e ss))"

definition force_light_on :: "env \<Rightarrow> room \<Rightarrow> error + bool" where
  "force_light_on e r = (case scenes r of None \<Rightarrow> Inr False | Some ss \<Rightarrow> force_loop e ss)"

text \<open>Lines 314-317.\<close>

definition decide :: "bool \<Rightarrow> string \<Rightarrow> room \<Rightarrow> room" where
  "decide force trigger r =
     (if force then r\<lparr>is_light_on := True\<rparr>
      else if \<not> (is_light_on r \<and> \<not> low_light r) \<or> hight_luminance_off_light r
              \<or> trigger = ''occupancy''
      then r\<lparr>is_light_on := (occupancy r \<and> low_light r)\<rparr>
      else r)"

text \<open>
  \<^verbatim>\<open>set_is_light_on\<close>. The flags are assigned in place, so an exception leaves the
  assignments made before it.
\<close>

definition set_is_light_on :: "env \<Rightarrow> app \<Rightarrow> string \<Rightarrow> string \<Rightarrow> error option \<times> app" where
  "set_is_light_on e a room_name trigger =
     (case map_of (rooms a) room_name of None \<Rightarrow> (Some KeyError, a)
      | Some r0 \<Rightarrow>
        let r1 = refresh_occupancy e r0 in
        (case refresh_low_light e r1 of
           Inl err \<Rightarrow> (Some err, put_room a room_name r1)
         | Inr r2 \<Rightarrow>
            let old_is_light_on = is_light_on r2 in
            (case force_light_on e r2 of
               Inl err \<Rightarrow> (Some err, put_room a room_name r2)
             | Inr force \<Rightarrow>
                let r3 = decide force trigger r2; a3 = put_room a room_name r3 in
                if trigger \<in> set [''init'', ''scene'', ''natural_lighting'']
                   \<or> old_is_light_on \<noteq> is_light_on r3
                then
                  (if force \<and> trigger = ''scene'' \<and> \<not> old_is_light_on
                   then set_light e a3 room_name ''occupancy''
                   else set_light e a3 room_name trigger)
                else (None, a3))))"

section \<open>Natural lighting\<close>

text \<open>
  \<^verbatim>\<open>scale\<close>. The operands are evaluated from left to right: the clamped value minus
  the source minimum, the source span, their quotient, the destination span, the product,
  the destination minimum, the sum; \<^verbatim>\<open>self.int\<close> is applied to the sum.
\<close>

definition scale :: "(string \<Rightarrow> pyfloat option) \<Rightarrow> pyval \<Rightarrow> pyval \<times> pyval \<Rightarrow> pyval \<times> pyval \<Rightarrow> error + pyval" where
  "scale fs val src dst =
     bind_res (py_max val (fst src)) (\<lambda>hi.
     bind_res (py_min hi (snd src)) (\<lambda>clamped.
     bind_res (py_sub clamped (fst src)) (\<lambda>num.
     bind_res (py_sub (snd src) (fst src)) (\<lambda>den.
     bind_res (py_truediv num den) (\<lambda>q.
     bind_res (py_sub (snd dst) (fst dst)) (\<lambda>span.
     bind_res (py_mul q span) (\<lambda>m.
     bind_res (py_add m (fst dst)) (\<lambda>x.
     Inr (int_conv fs x)))))))))"

text \<open>
  The loop of \<^verbatim>\<open>set_natural_lighting\<close> over the modes. The modes are assigned in place:
  an exception leaves the assignments made before it.
\<close>

fun update_modes :: "(string \<Rightarrow> pyfloat option) \<Rightarrow> nl_config \<Rightarrow> (string \<times> mode) list \<Rightarrow> (string \<times> mode) list \<times> error option" where
  "update_modes fs c [] = ([], None)"
| "update_modes fs c ((name, m) # ms) =
     (case scale fs (sun_elevation c)
             (min_elevation_for_brightness c, max_elevation_for_brightness c)
             (min_brightness m, max_brightness m) of
        Inl err \<Rightarrow> ((name, m) # ms, Some err)
      | Inr b \<Rightarrow>
         (case scale fs (sun_elevation c)
                 (min_elevation_for_kelvin c, max_elevation_for_kelvin c)
                 (min_kelvin m, max_kelvin m) of
            Inl err \<Rightarrow> ((name, m\<lparr>brightness := b\<rparr>) # ms, Some err)
          | Inr k \<Rightarrow>
             (let (ms', err) = update_modes fs c ms
              in ((name, m\<lparr>brightness := b, kelvin := k\<rparr>) # ms', err))))"

definition set_natural_lighting :: "(string \<Rightarrow> pyfloat option) \<Rightarrow> nl_config \<Rightarrow> error option \<times> nl_config" where
  "set_natural_lighting fs c =
     (let (ms, err) = update_modes fs c (modes c) in (err, c\<lparr>modes := ms\<rparr>))"

text \<open>Line 440: the room has bindings and its light is on.\<close>

definition follows_sun :: "room \<Rightarrow> bool" where
  "follows_sun r =
     ((case natural_lighting r of Some (nl # nls) \<Rightarrow> True | _ \<Rightarrow> False) \<and> is_light_on r)"

text \<open>The loop of \<^verbatim>\<open>callback_sun_elevation\<close> over the rooms (lines 439-441).\<close>

fun redrive :: "env \<Rightarrow> app \<Rightarrow> string list \<Rightarrow> error option \<times> app" where
  "redrive e a [] = (None, a)"
| "redrive e a (room_name # ns) =
     (case map_of (rooms a) room_name of None \<Rightarrow> (Some KeyError, a)
      | Some r \<Rightarrow>
          if follows_sun r then
            (case set_light e a room_name ''natural_lighting'' of
               (Some err, a') \<Rightarrow> (Some err, a')
             | (None, a') \<Rightarrow> redrive e a' ns)
          else redrive e a ns)"

text \<open>
  \<^verbatim>\<open>callback_sun_elevation\<close>. Where natural lighting is disabled the attribute is
  \<^verbatim>\<open>False\<close>, and the item assignment raises.
\<close>

definition callback_sun_elevation :: "env \<Rightarrow> app \<Rightarrow> pyval \<Rightarrow> error option \<times> app" where
  "callback_sun_elevation e a new =
     (case app_natural_lighting a of None \<Rightarrow> (Some TypeError, a)
      | Some c \<Rightarrow>
         (let (err, c') = set_natural_lighting (float_str e)
                            (c\<lparr>sun_elevation := int_conv (float_str e) new\<rparr>);
              a' = a\<lparr>app_natural_lighting := Some c'\<rparr>
          in case err of Some x \<Rightarrow> (Some x, a')
             | None \<Rightarrow> redrive e a' (map fst (rooms a'))))"

section \<open>Initialization\<close>

text \<open>
  The list \<^verbatim>\<open>self.entities\<close> that \<^verbatim>\<open>add_entity\<close> fills is never read by the app; it is
  left out of the state.
\<close>















text \<open>\<^verbatim>\<open>init_transitions\<close>: the defaults, updated with the configured transitions.\<close>

definition default_transitions :: "(string \<times> pyval) list" where
  "default_transitions = [(''init'', PNone), (''occupancy'', PNone), (''low_light'', PInt 15),
      (''scene'', PInt 10), (''natural_lighting'', PInt 10), (''off'', PNone)]"

fun dict_update :: "(string \<times> 'a) list \<Rightarrow> (string \<times> 'a) list \<Rightarrow> (string \<times> 'a) list" where
  "dict_update d [] = d"
| "dict_update d ((k, v) # kvs) =
     dict_update (if k \<in> fst ` set d then map (\<lambda>(k', v'). if k' = k then (k', v) else (k', v')) d
                  else d @ [(k, v)]) kvs"

definition init_transitions :: "(string \<times> pyval) list \<Rightarrow> (string \<times> pyval) list" where
  "init_transitions args = dict_update default_transitions args"

text \<open>The loop that ends \<^verbatim>\<open>initialize\<close> (lines 93-94): every room is evaluated.\<close>

fun init_pass :: "env \<Rightarrow> app \<Rightarrow> string list \<Rightarrow> error option \<times> app" where
  "init_pass e a [] = (None, a)"
| "init_pass e a (room_name # ns) =
     (case set_is_light_on e a room_name ''init'' of
        (Some err, a') \<Rightarrow> (Some err, a')
      | (None, a') \<Rightarrow> init_pass e a' ns)"

section \<open>Notions of the specification\<close>

text \<open>
  A scene binding forces the light on when its trigger entity has the trigger value and
  its \<^verbatim>\<open>scene_force_light_on\<close> flag is set.
\<close>

definition scene_forces :: "env \<Rightarrow> scene \<Rightarrow> bool" where
  "scene_forces e s =
     (case (scene_trigger_entity s, scene_trigger_value s, scene_force_light_on s) of
        (Some te, Some tv, Some f) \<Rightarrow> py_eq (get_state e te) tv \<and> truthy f
      | _ \<Rightarrow> False)"

definition room_scenes :: "room \<Rightarrow> scene list" where
  "room_scenes r = (case scenes r of None \<Rightarrow> [] | Some ss \<Rightarrow> ss)"

text \<open>
  The specification's range scaler on integers: the value clamped to the source range and
  mapped linearly onto the destination range, as an exact rational; \<^verbatim>\<open>scale\<close> is
  specified as its truncation.
\<close>

definition linear_map :: "int \<Rightarrow> int \<times> int \<Rightarrow> int \<times> int \<Rightarrow> rat" where
  "linear_map v src dst =
     of_int (min (max v (fst src)) (snd src) - fst src) / of_int (snd src - fst src)
       * of_int (snd dst - fst dst) + of_int (fst dst)"

text \<open>A rational that is an integer.\<close>

definition integral :: "rat \<Rightarrow> bool" where
  "integral x = (of_int \<lfloor>x\<rfloor> = x)"

text \<open>
  The specification's boost: \<open>brightness + brightness \<times> boost / 100\<close>, as an exact rational.
\<close>

definition boosted :: "int \<Rightarrow> int \<Rightarrow> rat" where
  "boosted b p = of_int b + of_int b * of_int p / 100"

text \<open>
  The rooms that the specification has re-driven on a change of the sun's elevation: those
  with bindings whose light is on; and the dispatcher run on a list of rooms in turn, with
  one trigger, ending at the first exception.
\<close>

definition redriven :: "app \<Rightarrow> string list" where
  "redriven a = map fst (filter (\<lambda>(room_name, r). follows_sun r) (rooms a))"

fun dispatch_all :: "env \<Rightarrow> string \<Rightarrow> app \<Rightarrow> string list \<Rightarrow> error option \<times> app" where
  "dispatch_all e trigger a [] = (None, a)"
| "dispatch_all e trigger a (room_name # ns) =
     (case set_light e a room_name trigger of
        (Some err, a') \<Rightarrow> (Some err, a')
      | (None, a') \<Rightarrow> dispatch_all e trigger a' ns)"

text \<open>A mode whose brightness and kelvin are the two values of \<open>scale\<close> for the elevation.\<close>

definition recomputed :: "(string \<Rightarrow> pyfloat option) \<Rightarrow> nl_config \<Rightarrow> mode \<Rightarrow> mode \<Rightarrow> bool" where
  "recomputed fs c m m' =
     (scale fs (sun_elevation c)
        (min_elevation_for_brightness c, max_elevation_for_brightness c)
        (min_brightness m, max_brightness m) = Inr (brightness m') \<and>
      scale fs (sun_elevation c)
        (min_elevation_for_kelvin c, max_elevation_for_kelvin c)
        (min_kelvin m, max_kelvin m) = Inr (kelvin m') \<and>
      m' = m\<lparr>brightness := brightness m', kelvin := kelvin m'\<rparr>)"



section \<open>An example installation\<close>

text \<open>
  A parser of plain decimal literals (sign, digits, fraction), which is what the sensors
  of the example report; \<^verbatim>\<open>float\<close> agrees with it on these strings and rejects, as it
  does, a string without a digit.
\<close>

fun digit_of :: "char \<Rightarrow> nat option" where
  "digit_of c = (let k = (of_char c :: nat) in if 48 \<le> k \<and> k \<le> 57 then Some (k - 48) else None)"

fun digits :: "nat \<Rightarrow> string \<Rightarrow> nat option" where
  "digits acc [] = Some acc"
| "digits acc (c # cs) = (case digit_of c of None \<Rightarrow> None | Some d \<Rightarrow> digits (10 * acc + d) cs)"

definition float_str_plain :: "string \<Rightarrow> pyfloat option" where
  "float_str_plain s =
     (let (neg, body) = (case s of c # t \<Rightarrow> if c = CHR ''-'' then (True, t)
                                          else if c = CHR ''+'' then (False, t) else (False, s)
                                | [] \<Rightarrow> (False, s));
          ip = takeWhile (\<lambda>c. c \<noteq> CHR ''.'') body;
          fp = drop 1 (dropWhile (\<lambda>c. c \<noteq> CHR ''.'') body)
      in if ip = [] \<and> fp = [] then None
         else case (digits 0 ip, digits 0 fp) of
                (Some i, Some f) \<Rightarrow>
                   Some (rd ((if neg then - 1 else 1) * (of_nat i + of_nat f / 10 ^ length fp)))
              | _ \<Rightarrow> None)"

definition demo_env :: env where
  "demo_env = \<lparr>get_state = (\<lambda>s.
        if s = ''sensor.living_lum'' then PStr ''10''
        else if s = ''binary_sensor.living_occ'' then PStr ''on''
        else if s = ''sensor.cinema_lum'' then PStr ''50.5''
        else if s = ''binary_sensor.cinema_occ'' then PStr ''off''
        else if s = ''input_boolean.movie'' then PStr ''on''
        else if s = ''binary_sensor.hall_occ'' then PStr ''on''
        else if s = ''sensor.cellar_lum'' then PStr ''abc''
        else if s = ''sensor.study_lum'' then PStr ''11''
        else PNone),
      entity_exists = (\<lambda>s. s \<in> set [''light.living'', ''light.cinema'', ''sensor.living_lum'',
         ''binary_sensor.living_occ'', ''sensor.cinema_lum'', ''binary_sensor.cinema_occ'',
         ''input_boolean.movie'', ''light.hall'', ''binary_sensor.hall_occ'',
         ''sensor.cellar_lum'', ''light.cellar'', ''light.attic'', ''scene.attic'', ''light.den'',
         ''switch.den_lamp'', ''light.patio'', ''light.porch'', ''sun.sun'', ''scene.movie'']),
      float_str = float_str_plain\<rparr>"

definition movie_scene :: scene where
  "movie_scene = \<lparr>scene_entity = Some ''scene.movie'',
      scene_trigger_entity = Some ''input_boolean.movie'',
      scene_trigger_value = Some (PStr ''on''),
      scene_force_light_on = Some (PBool True)\<rparr>"

definition living_room :: room where
  "living_room = \<lparr>occupancy_entity = Some ''binary_sensor.living_occ'',
      lights_entity = ''light.living'',
      occupancy_off_delay = PInt 0,
      luminance_entity = Some ''sensor.living_lum'',
      luminance_limit = PInt 10,
      luminance_hysteresis = PInt 2,
      hight_luminance_off_light = False,
      occupancy = True, low_light = False, is_light_on = False,
      natural_lighting = None, scenes = None\<rparr>"

definition cinema_room :: room where
  "cinema_room = \<lparr>occupancy_entity = Some ''binary_sensor.cinema_occ'',
      lights_entity = ''light.cinema'',
      occupancy_off_delay = PInt 0,
      luminance_entity = Some ''sensor.cinema_lum'',
      luminance_limit = PInt 10,
      luminance_hysteresis = PInt 0,
      hight_luminance_off_light = False,
      occupancy = False, low_light = False, is_light_on = False,
      natural_lighting = None, scenes = Some [movie_scene]\<rparr>"

definition hall_room :: room where
  "hall_room = \<lparr>occupancy_entity = Some ''binary_sensor.hall_occ'',
      lights_entity = ''light.hall'',
      occupancy_off_delay = PInt 0,
      luminance_entity = None,
      luminance_limit = PInt 10,
      luminance_hysteresis = PInt 0,
      hight_luminance_off_light = False,
      occupancy = True, low_light = True, is_light_on = False,
      natural_lighting = None, scenes = None\<rparr>"

definition demo_app :: app where
  "demo_app = \<lparr>rooms = [(''living'', living_room), (''cinema'', cinema_room), (''hall'', hall_room)],
      app_natural_lighting = None,
      transitions = default_transitions,
      calls = []\<rparr>"

text \<open>
  A garden with natural lighting: the patio light is on, the porch light is off and its
  binding boosts by 50 percent; the mode dims down to brightness 0.
\<close>

definition default_mode :: mode where
  "default_mode = \<lparr>max_brightness = PInt 255, min_brightness = PInt 0,
      max_kelvin = PInt 5500, min_kelvin = PInt 2000,
      brightness = PInt 250, kelvin = PInt 5400\<rparr>"

definition sky :: nl_config where
  "sky = \<lparr>modes = [(''default'', default_mode)],
      sun_entity = ''sun.sun'',
      min_elevation_for_brightness = PInt (- 20),
      max_elevation_for_brightness = PInt 20,
      min_elevation_for_kelvin = PInt 0,
      max_elevation_for_kelvin = PInt 20,
      sun_elevation = PInt 19\<rparr>"

definition plain_binding :: nl_binding where
  "plain_binding = \<lparr>nl_name = ''default'', nl_boost_brightness_pct = PInt 0,
      nl_lights_entity = None, nl_natural_entity = Some ''light.patio''\<rparr>"

definition boosted_binding :: nl_binding where
  "boosted_binding = \<lparr>nl_name = ''default'', nl_boost_brightness_pct = PInt 50,
      nl_lights_entity = None, nl_natural_entity = Some ''light.porch''\<rparr>"

definition patio_room :: room where
  "patio_room = \<lparr>occupancy_entity = None,
      lights_entity = ''light.patio'',
      occupancy_off_delay = PInt 0,
      luminance_entity = None,
      luminance_limit = PInt 10,
      luminance_hysteresis = PInt 0,
      hight_luminance_off_light = False,
      occupancy = True, low_light = True, is_light_on = True,
      natural_lighting = Some [plain_binding], scenes = None\<rparr>"

definition porch_room :: room where
  "porch_room = \<lparr>occupancy_entity = None,
      lights_entity = ''light.porch'',
      occupancy_off_delay = PInt 0,
      luminance_entity = None,
      luminance_limit = PInt 10,
      luminance_hysteresis = PInt 0,
      hight_luminance_off_light = False,
      occupancy = False, low_light = True, is_light_on = False,
      natural_lighting = Some [boosted_binding], scenes = None\<rparr>"

definition garden_app :: app where
  "garden_app = \<lparr>rooms = [(''patio'', patio_room), (''porch'', porch_room),
        (''hall'', hall_room\<lparr>is_light_on := True\<rparr>)],
      app_natural_lighting = Some sky,
      transitions = default_transitions,
      calls = []\<rparr>"

text \<open>A scene binding without its trigger keys, in the attic.\<close>

definition attic_room :: room where
  "attic_room = \<lparr>occupancy_entity = None,
      lights_entity = ''light.attic'',
      occupancy_off_delay = PInt 0,
      luminance_entity = None,
      luminance_limit = PInt 10,
      luminance_hysteresis = PInt 0,
      hight_luminance_off_light = False,
      occupancy = True, low_light = True, is_light_on = False,
      natural_lighting = None,
      scenes = Some [\<lparr>scene_entity = Some ''scene.attic'', scene_trigger_entity = None,
                       scene_trigger_value = None, scene_force_light_on = None\<rparr>]\<rparr>"

definition attic_app :: app where
  "attic_app = \<lparr>rooms = [(''attic'', attic_room), (''hall'', hall_room)],
      app_natural_lighting = None,
      transitions = default_transitions,
      calls = []\<rparr>"

text \<open>The same attic with its light on and a binding, beside the patio, under the sky.\<close>

definition loft_app :: app where
  "loft_app = \<lparr>rooms = [(''attic'', attic_room\<lparr>is_light_on := True,
         natural_lighting := Some [plain_binding]\<rparr>), (''patio'', patio_room)],
      app_natural_lighting = Some sky,
      transitions = default_transitions,
      calls = []\<rparr>"

text \<open>A study in low light, configured with the limit 10.5 and the hysteresis 0.5.\<close>

definition study_room :: room where
  "study_room = \<lparr>occupancy_entity = None,
      lights_entity = ''light.study'',
      occupancy_off_delay = PInt 0,
      luminance_entity = Some ''sensor.study_lum'',
      luminance_limit = PFloat (Fin (21 / 2)),
      luminance_hysteresis = PFloat (Fin (1 / 2)),
      hight_luminance_off_light = False,
      occupancy = True, low_light = True, is_light_on = True,
      natural_lighting = None, scenes = None\<rparr>"

definition study_app :: app where
  "study_app = \<lparr>rooms = [(''study'', study_room)],
      app_natural_lighting = None,
      transitions = default_transitions,
      calls = []\<rparr>"

text \<open>A cellar whose luminance sensor reports a text.\<close>

definition cellar_app :: app where
  "cellar_app = \<lparr>rooms = [(''cellar'', living_room\<lparr>lights_entity := ''light.cellar'',
         occupancy_entity := None, luminance_entity := Some ''sensor.cellar_lum''\<rparr>)],
      app_natural_lighting = None,
      transitions = default_transitions,
      calls = []\<rparr>"





section \<open>Properties of the rounding\<close>

lemma pow2_powi: "0 \<le> k \<Longrightarrow> (2::rat) powi k = 2 ^ nat k"
  by (simp add: power_int_def)

lemma bitlen_powi_bounds:
  assumes "0 < p"
  shows "(2::rat) powi (bitlen p - 1) \<le> of_int p" "of_int p < (2::rat) powi bitlen p"
proof -
  have b: "2 ^ nat (bitlen p - 1) \<le> p" "p < 2 ^ nat (bitlen p)"
    using bitlen_bounds [OF assms] by auto
  have pos: "0 < bitlen p" using assms bitlen_def
    by (metis bitlen_bounds bitlen_nonneg less_le nat_zero_as_int not_less power_0 zless_imp_add1_zle zero_less_one add_0 nat_0_iff)
  have "(2::rat) powi (bitlen p - 1) = of_int (2 ^ nat (bitlen p - 1))"
    using pos by (simp add: pow2_powi)
  also have "\<dots> \<le> of_int p" using b(1) by (simp only: of_int_le_iff)
  finally show "(2::rat) powi (bitlen p - 1) \<le> of_int p" .
  have "(of_int p :: rat) < of_int (2 ^ nat (bitlen p))" using b(2) by (simp only: of_int_less_iff)
  also have "\<dots> = 2 powi bitlen p" using pos by (simp add: pow2_powi)
  finally show "of_int p < (2::rat) powi bitlen p" .
qed

lemma expo_bounds:
  assumes "x \<noteq> 0"
  shows "2 powi expo x \<le> \<bar>x\<bar> \<and> \<bar>x\<bar> < 2 powi (expo x + 1)"
proof -
  obtain p q where pq: "quotient_of \<bar>x\<bar> = (p, q)" by (cases "quotient_of \<bar>x\<bar>")
  have q: "0 < q" using pq quotient_of_denom_pos by blast
  have x: "\<bar>x\<bar> = of_int p / of_int q" using pq quotient_of_div by blast
  have p: "0 < p" using assms x q by (smt (verit) abs_ge_zero abs_zero divide_nonpos_pos abs_eq_0 of_int_0_less_iff of_int_le_0_iff zero_less_abs_iff not_less)
  let ?k = "bitlen p - bitlen q"
  have lo: "(2::rat) powi (?k - 1) \<le> \<bar>x\<bar>"
  proof -
    have "(2::rat) powi (?k - 1) = 2 powi (bitlen p - 1) / 2 powi bitlen q"
      by (simp add: power_int_diff)
    also have "\<dots> \<le> of_int p / 2 powi bitlen q"
      using bitlen_powi_bounds(1) [OF p] by (simp add: divide_right_mono)
    also have "\<dots> \<le> of_int p / of_int q"
      using bitlen_powi_bounds(2) [OF q] p q by (intro divide_left_mono) auto
    finally show ?thesis using x by simp
  qed
  have hi: "\<bar>x\<bar> < (2::rat) powi (?k + 1)"
  proof -
    have "of_int p / of_int q < (2::rat) powi bitlen p / of_int q"
      using bitlen_powi_bounds(2) [OF p] q by (simp add: divide_strict_right_mono)
    also have "\<dots> \<le> 2 powi bitlen p / 2 powi (bitlen q - 1)"
      using bitlen_powi_bounds(1) [OF q] q by (intro divide_left_mono) auto
    also have "\<dots> = 2 powi (?k + 1)"
      by (simp add: power_int_diff power_int_add)
    finally show ?thesis using x by simp
  qed
  show ?thesis
  proof (cases "2 powi ?k \<le> \<bar>x\<bar>")
    case True
    then have "expo x = ?k" using pq by (simp add: expo_def)
    then show ?thesis using True hi by simp
  next
    case False
    then have "expo x = ?k - 1" using pq by (simp add: expo_def)
    then show ?thesis using False lo by simp
  qed
qed

lemma pow2_less_cancel: "(2::rat) powi m < 2 powi n \<Longrightarrow> m < n"
  using power_int_increasing [of n m "2::rat"] by (cases "m < n") auto

lemma expo_unique:
  assumes "2 powi e \<le> \<bar>x\<bar>" "\<bar>x\<bar> < 2 powi (e + 1)"
  shows "expo x = e"
proof -
  have "x \<noteq> 0" using assms(1) by (smt (verit) abs_zero zero_less_power_int not_less zero_less_numeral)
  note b = expo_bounds [OF this]
  have "(2::rat) powi e < 2 powi (expo x + 1)" using assms(1) b by linarith
  then have 1: "e < expo x + 1" by (rule pow2_less_cancel) 
  have "(2::rat) powi expo x < 2 powi (e + 1)" using assms(2) b by linarith
  then have 2: "expo x < e + 1" by (rule pow2_less_cancel)
  show ?thesis using 1 2 by simp
qed


lemma rhe_error: "\<bar>of_int (rhe y) - y\<bar> \<le> 1 / 2"
proof -
  have "of_int \<lfloor>y\<rfloor> \<le> y" "y < of_int \<lfloor>y\<rfloor> + 1" by linarith+
  then show ?thesis by (auto simp: rhe_def Let_def)
qed

lemma rhe_of_int [simp]: "rhe (of_int n) = n"
  by (simp add: rhe_def)

lemma tiny_pos: "0 < tiny"
  unfolding tiny_def by (rule zero_less_power_int) simp

lemma rd_error:
  assumes "\<bar>x\<bar> < huge"
  shows "\<exists>r. rd x = Fin r \<and> \<bar>r - x\<bar> \<le> \<bar>x\<bar> / 2 ^ 53 + tiny"
proof (cases "x = 0")
  case True
  then show ?thesis using tiny_pos by (simp add: rd_def)
next
  case False
  define e where "e = expo x"
  define u where "u = max e (- 1022) - 52"
  define m where "m = rhe (\<bar>x\<bar> / 2 powi u)"
  define s :: rat where "s = (if 0 < x then 1 else - 1)"
  have b: "2 powi e \<le> \<bar>x\<bar>" "\<bar>x\<bar> < 2 powi (e + 1)"
    using expo_bounds [OF False] by (simp_all add: e_def)
  have "(2::rat) powi e < 2 powi 1023" using b(1) assms unfolding huge_def by linarith
  then have e: "e < 1023" by (rule pow2_less_cancel)
  have rd: "rd x = Fin (s * of_int m * 2 powi u)"
    using False e by (simp add: rd_def Let_def e_def u_def m_def s_def)
  have sx: "x = s * \<bar>x\<bar>" using False by (auto simp: s_def)
  have pu: "(0::rat) < 2 powi u" by simp
  have "\<bar>s * of_int m * 2 powi u - x\<bar> = \<bar>s * ((of_int m - \<bar>x\<bar> / 2 powi u) * 2 powi u)\<bar>"
    using sx pu by (simp add: algebra_simps)
  also have "\<dots> = \<bar>of_int m - \<bar>x\<bar> / 2 powi u\<bar> * 2 powi u"
    by (simp add: abs_mult s_def)
  also have "\<dots> \<le> 1 / 2 * 2 powi u"
    using rhe_error [of "\<bar>x\<bar> / 2 powi u"] pu unfolding m_def
    by (intro mult_right_mono) auto
  also have "\<dots> = 2 powi (u - 1)" by (simp add: power_int_diff)
  also have "\<dots> \<le> \<bar>x\<bar> / 2 ^ 53 + tiny"
  proof (cases "- 1022 \<le> e")
    case True
    then have "u - 1 = e - 53" by (simp add: u_def)
    then have "(2::rat) powi (u - 1) = 2 powi (e - 53)" by (simp only:)
    also have "\<dots> = 2 powi e / 2 powi 53" by (rule power_int_diff) simp
    also have "\<dots> = 2 powi e / 2 ^ 53" by simp
    finally have "(2::rat) powi (u - 1) = 2 powi e / 2 ^ 53" .
    also have "\<dots> \<le> \<bar>x\<bar> / 2 ^ 53" using b(1) by (simp add: divide_right_mono)
    finally have "(2::rat) powi (u - 1) \<le> \<bar>x\<bar> / 2 ^ 53" .
    then show ?thesis using tiny_pos by linarith
  next
    case False
    then have "u - 1 = - 1075" by (simp add: u_def)
    then have "(2::rat) powi (u - 1) = tiny" by (simp only: tiny_def)
    moreover have "0 \<le> \<bar>x\<bar> / 2 ^ 53" by simp
    ultimately show ?thesis by linarith
  qed
  finally show ?thesis using rd by blast
qed

lemma rd_exact:
  assumes x: "x = of_int m * 2 powi u" and m: "\<bar>m\<bar> < 2 ^ 53" and u: "- 1074 \<le> u" "u \<le> 970"
  shows "rd x = Fin x"
proof (cases "x = 0")
  case True
  then show ?thesis by (simp add: rd_def)
next
  case False
  define e where "e = expo x"
  define u' where "u' = max e (- 1022) - 52"
  define s :: rat where "s = (if 0 < x then 1 else - 1)"
  have b: "2 powi e \<le> \<bar>x\<bar>" "\<bar>x\<bar> < 2 powi (e + 1)"
    using expo_bounds [OF False] by (simp_all add: e_def)
  have ax: "\<bar>x\<bar> = of_int \<bar>m\<bar> * 2 powi u" by (simp add: x abs_mult)
  have "of_int \<bar>m\<bar> < (2::rat) ^ 53" using m by (metis of_int_less_iff of_int_numeral of_int_power)
  then have "\<bar>x\<bar> < 2 ^ 53 * 2 powi u" unfolding ax by (intro mult_strict_right_mono) auto
  also have "\<dots> = 2 powi (u + 53)" by (simp add: power_int_add)
  finally have "(2::rat) powi e < 2 powi (u + 53)" using b(1) by linarith
  then have e: "e < u + 53" by (rule pow2_less_cancel)
  then have uu: "u' \<le> u" and e': "e < 1023" using u by (auto simp: u'_def)
  have "\<bar>x\<bar> / 2 powi u' = of_int \<bar>m\<bar> * 2 powi (u - u')"
    by (simp add: ax power_int_diff)
  also have "\<dots> = of_int (\<bar>m\<bar> * 2 ^ nat (u - u'))" using uu by (simp add: pow2_powi)
  finally have "rhe (\<bar>x\<bar> / 2 powi u') = \<bar>m\<bar> * 2 ^ nat (u - u')" by (simp only: rhe_of_int)
  then have "of_int (rhe (\<bar>x\<bar> / 2 powi u')) * 2 powi u' = (of_int \<bar>m\<bar> :: rat) * 2 powi (u - u') * 2 powi u'"
    using uu by (simp add: pow2_powi)
  also have "\<dots> = \<bar>x\<bar>" by (simp add: ax power_int_diff)
  finally have r: "of_int (rhe (\<bar>x\<bar> / 2 powi u')) * 2 powi u' = \<bar>x\<bar>" .
  have "rd x = Fin (s * (of_int (rhe (\<bar>x\<bar> / 2 powi u')) * 2 powi u'))"
    using False e' by (simp add: rd_def Let_def e_def u'_def s_def mult.assoc)
  also have "\<dots> = Fin x" unfolding r using False by (auto simp: s_def)
  finally show ?thesis .
qed

lemma rd_of_int:
  assumes "\<bar>n\<bar> < 2 ^ 53"
  shows "rd (of_int n) = Fin (of_int n)"
  using rd_exact [of "of_int n" n 0] assms by simp

lemma tiny_small: "tiny \<le> 1 / 2 ^ 64"
proof -
  have "(2::rat) powi (- 1075) \<le> 2 powi (- 64)" by (rule power_int_increasing) simp_all
  also have "\<dots> = 1 / 2 ^ 64" by (simp add: power_int_minus_divide)
  finally show ?thesis by (simp only: tiny_def)
qed

lemma small_less_huge: "\<bar>x\<bar> \<le> 2 ^ 40 \<Longrightarrow> \<bar>x\<bar> < huge"
proof -
  assume "\<bar>x\<bar> \<le> 2 ^ 40"
  also have "(2::rat) ^ 40 = 2 powi 40" by simp
  also have "\<dots> < 2 powi 1023" by (rule power_int_strict_increasing) simp_all
  finally show ?thesis by (simp only: huge_def)
qed

lemma fl3:
  fixes a b c d :: int
  assumes b: "b \<noteq> 0" and ab: "\<bar>a\<bar> \<le> 128 * \<bar>b\<bar>" and c: "\<bar>c\<bar> \<le> 2 ^ 21" and d: "\<bar>d\<bar> \<le> 2 ^ 21"
  obtains q m x where "rd (of_int a / of_int b) = Fin q" "rd (q * of_int c) = Fin m"
    "rd (m + of_int d) = Fin x"
    "\<bar>x - (of_int a / of_int b * of_int c + of_int d)\<bar> \<le> 1 / 2 ^ 20"
proof -
  define t :: rat where "t = of_int a / of_int b"
  define e1 :: rat where "e1 = 128 / 2 ^ 53 + 1 / 2 ^ 64"
  define e2 :: rat where "e2 = 129 * 2 ^ 21 / 2 ^ 53 + 1 / 2 ^ 64"
  define e3 :: rat where "e3 = 131 * 2 ^ 21 / 2 ^ 53 + 1 / 2 ^ 64"
  define C :: rat where "C = 2 ^ 21"
  have num: "0 \<le> e1" "e1 \<le> 1" "e2 \<le> 1" "e3 + e2 + e1 * C \<le> 1 / 2 ^ 20" "129 * C + 1 + C \<le> 131 * C"
    "131 * C \<le> 2 ^ 40"
    by (simp_all add: e1_def e2_def e3_def C_def)
  have cr: "\<bar>of_int c :: rat\<bar> \<le> C" unfolding C_def
    using c by (metis of_int_abs of_int_le_iff of_int_numeral of_int_power)
  have dr: "\<bar>of_int d :: rat\<bar> \<le> C" unfolding C_def
    using d by (metis of_int_abs of_int_le_iff of_int_numeral of_int_power)
  have "(of_int \<bar>a\<bar> :: rat) \<le> of_int (128 * \<bar>b\<bar>)" using ab by (simp only: of_int_le_iff)
  then have "\<bar>of_int a :: rat\<bar> \<le> 128 * \<bar>of_int b\<bar>" by simp
  then have t: "\<bar>t\<bar> \<le> 128" using b by (simp add: t_def abs_divide divide_le_eq)
  then have "\<bar>t\<bar> < huge" by (intro small_less_huge) simp
  then obtain q where q: "rd t = Fin q" and eq: "\<bar>q - t\<bar> \<le> \<bar>t\<bar> / 2 ^ 53 + tiny"
    using rd_error by blast
  have "\<bar>t\<bar> / 2 ^ 53 \<le> 128 / 2 ^ 53" using t by (simp add: divide_right_mono)
  then have eq': "\<bar>q - t\<bar> \<le> e1" unfolding e1_def using eq tiny_small by linarith
  then have aq: "\<bar>q\<bar> \<le> 129" using t num by linarith
  have qc: "\<bar>q * of_int c\<bar> \<le> 129 * C"
    unfolding abs_mult using aq cr by (intro mult_mono) auto
  then have "\<bar>q * of_int c\<bar> \<le> 2 ^ 40" using num by linarith
  then have "\<bar>q * of_int c\<bar> < huge" by (rule small_less_huge)
  then obtain m where m: "rd (q * of_int c) = Fin m"
      and em: "\<bar>m - q * of_int c\<bar> \<le> \<bar>q * of_int c\<bar> / 2 ^ 53 + tiny"
    using rd_error by blast
  have "\<bar>q * of_int c\<bar> / 2 ^ 53 \<le> 129 * C / 2 ^ 53" using qc by (simp add: divide_right_mono)
  then have em': "\<bar>m - q * of_int c\<bar> \<le> e2" unfolding e2_def C_def using em tiny_small by linarith
  have "\<bar>q * of_int c - t * of_int c\<bar> = \<bar>q - t\<bar> * \<bar>of_int c\<bar>"
    by (simp add: abs_mult flip: left_diff_distrib)
  also have "\<dots> \<le> e1 * C"
    using eq' cr by (intro mult_mono) (auto simp: num)
  finally have ec: "\<bar>q * of_int c - t * of_int c\<bar> \<le> e1 * C" .
  have md: "\<bar>m + of_int d\<bar> \<le> 131 * C" using em' qc dr num by linarith
  then have "\<bar>m + of_int d\<bar> \<le> 2 ^ 40" using num by linarith
  then have "\<bar>m + of_int d\<bar> < huge" by (rule small_less_huge)
  then obtain x where x: "rd (m + of_int d) = Fin x"
      and ex: "\<bar>x - (m + of_int d)\<bar> \<le> \<bar>m + of_int d\<bar> / 2 ^ 53 + tiny"
    using rd_error by blast
  have "\<bar>m + of_int d\<bar> / 2 ^ 53 \<le> 131 * C / 2 ^ 53" using md by (simp add: divide_right_mono)
  then have ex': "\<bar>x - (m + of_int d)\<bar> \<le> e3" unfolding e3_def C_def using ex tiny_small by linarith
  have "\<bar>x - (t * of_int c + of_int d)\<bar> \<le> 1 / 2 ^ 20"
    using ex' em' ec num(4) by linarith
  then show ?thesis using that [of q m x] q m x by (simp add: t_def)
qed

lemma trunc_unit_pos:
  assumes "of_int k \<le> x" "x < of_int k + 1" "0 \<le> k"
  shows "trunc_rat x = k"
proof -
  have "(0::rat) \<le> of_int k" using assms(3) by simp
  then have "0 \<le> x" using assms(1) by linarith
  moreover have "\<lfloor>x\<rfloor> = k" using assms(1,2) by (rule floor_unique)
  ultimately show ?thesis by (simp add: trunc_rat_def)
qed

lemma trunc_unit_neg:
  assumes "of_int k < x" "x \<le> of_int k + 1" "k < 0"
  shows "trunc_rat x = k + 1"
proof -
  have "k + 1 \<le> 0" using assms(3) by simp
  then have "(of_int (k + 1) :: rat) \<le> 0" by (simp only: of_int_le_0_iff)
  then have k: "of_int k + 1 \<le> (0::rat)" by simp
  have "of_int (- k - 1) \<le> - x" "- x < of_int (- k - 1) + 1" using assms(1,2) by simp_all
  then have f: "\<lfloor>- x\<rfloor> = - k - 1" by (rule floor_unique)
  show ?thesis
  proof (cases "x = 0")
    case True
    then have "k = - 1" using assms(1,2) k by simp
    then show ?thesis using True by (simp add: trunc_rat_def)
  next
    case False
    then have "x < 0" using assms(2) k by linarith
    then show ?thesis using f by (simp add: trunc_rat_def)
  qed
qed

text \<open>Truncation of a value that is near a fraction with a small denominator.\<close>

lemma trunc_near_integer:
  assumes "of_int n - 1 < x" "x < of_int n + 1"
  shows "trunc_rat x = n \<or> trunc_rat x = n - sgn n"
proof (cases "of_int n \<le> x")
  case True
  show ?thesis
  proof (cases "0 \<le> n")
    case True
    then show ?thesis using trunc_unit_pos [of n x] \<open>of_int n \<le> x\<close> assms(2) by simp
  next
    case False
    show ?thesis
    proof (cases "x = of_int n")
      case True
      then have "trunc_rat x = (n - 1) + 1"
        using False by (intro trunc_unit_neg) simp_all
      then show ?thesis by simp
    next
      case False
      then have "of_int n < x" "x \<le> of_int n + 1" using True assms(2) by simp_all
      then have "trunc_rat x = n + 1" using \<open>\<not> 0 \<le> n\<close> by (intro trunc_unit_neg) simp_all
      then show ?thesis using \<open>\<not> 0 \<le> n\<close> by simp
    qed
  qed
next
  case False
  then have lt: "x < of_int n" by simp
  show ?thesis
  proof (cases "0 < n")
    case True
    then have "trunc_rat x = n - 1" using assms(1) lt by (intro trunc_unit_pos) simp_all
    then show ?thesis using True by simp
  next
    case False
    then have "trunc_rat x = (n - 1) + 1" using assms(1) lt by (intro trunc_unit_neg) simp_all
    then show ?thesis by simp
  qed
qed

lemma trunc_near_fraction:
  fixes N B :: int
  assumes B: "0 < B" and near: "\<bar>x - of_int N / of_int B\<bar> < 1 / of_int B"
  shows "if B dvd N
         then trunc_rat x = N div B \<or> trunc_rat x = N div B - sgn (N div B)
         else trunc_rat x = trunc_rat (of_int N / of_int B)"
proof -
  define L :: rat where "L = of_int N / of_int B"
  define i :: rat where "i = 1 / of_int B"
  have Bp: "(0::rat) < of_int B" using B by simp
  have i: "0 < i" "i \<le> 1" using B by (simp_all add: i_def divide_le_eq)
  have near': "\<bar>x - L\<bar> < i" using near by (simp add: L_def i_def)
  show ?thesis
  proof (cases "B dvd N")
    case True
    then obtain n where n: "N = B * n" by (auto simp: dvd_def)
    then have Ln: "L = of_int n" using B by (simp add: L_def)
    have nd: "N div B = n" using n B by simp
    have "of_int n - 1 < x" "x < of_int n + 1" using near' Ln i by linarith+
    then have "trunc_rat x = n \<or> trunc_rat x = n - sgn n" by (rule trunc_near_integer)
    then show ?thesis using True nd by simp
  next
    case False
    define k where "k = N div B"
    define r where "r = N mod B"
    have Nk: "N = B * k + r" by (simp add: k_def r_def)
    have "r \<noteq> 0" using False by (simp add: r_def dvd_eq_mod_eq_0)
    moreover have "0 \<le> r" "r < B" using B by (simp_all add: r_def)
    ultimately have r: "1 \<le> r" "r \<le> B - 1" by simp_all
    have Lk: "L = of_int k + of_int r * i"
      using B by (simp add: L_def i_def Nk field_simps)
    have "(of_int 1 :: rat) \<le> of_int r" using r(1) by (simp only: of_int_le_iff)
    then have "1 * i \<le> of_int r * i" using i(1) by (intro mult_right_mono) simp_all
    then have lo: "of_int k + i \<le> L" unfolding Lk by simp
    have "(of_int r :: rat) \<le> of_int (B - 1)" using r(2) by (simp only: of_int_le_iff)
    then have "of_int r * i \<le> of_int (B - 1) * i" using i(1) by (intro mult_right_mono) simp_all
    also have "\<dots> = 1 - i" using Bp by (simp add: i_def field_simps)
    finally have hi: "L \<le> of_int k + 1 - i" unfolding Lk by simp
    have x: "of_int k < x" "x < of_int k + 1" using near' lo hi by linarith+
    have L: "of_int k < L" "L < of_int k + 1" using lo hi i(1) by linarith+
    have "trunc_rat x = trunc_rat L"
    proof (cases "0 \<le> k")
      case True
      then show ?thesis
        using trunc_unit_pos [of k x] trunc_unit_pos [of k L] x L by simp
    next
      case False
      then show ?thesis
        using trunc_unit_neg [of k x] trunc_unit_neg [of k L] x L by simp
    qed
    then show ?thesis using False by (simp add: L_def)
  qed
qed

section \<open>Properties of the range scaler\<close>

lemma py_add_ints [simp]: "py_add (PInt a) (PInt b) = Inr (PInt (a + b))"
  by (simp add: py_add_def num_op_def bind_res_def)

lemma py_sub_ints [simp]: "py_sub (PInt a) (PInt b) = Inr (PInt (a - b))"
  by (simp add: py_sub_def num_op_def bind_res_def)

lemma py_le_ints [simp]: "py_le (PInt a) (PInt b) = Inr (a \<le> b)"
  by (simp add: py_le_def)

lemma py_max_ints [simp]: "py_max (PInt a) (PInt b) = Inr (PInt (max a b))"
  by (simp add: py_max_def py_lt_def bind_res_def max_def)

lemma py_min_ints [simp]: "py_min (PInt a) (PInt b) = Inr (PInt (min a b))"
  by (simp add: py_min_def py_lt_def bind_res_def min_def)

lemma float_of_int_small: "\<bar>n\<bar> < 2 ^ 53 \<Longrightarrow> float_of_int n = Inr (Fin (of_int n))"
  by (simp add: float_of_int_def rd_of_int)

lemma py_truediv_ints:
  "b \<noteq> 0 \<Longrightarrow> rd (of_int a / of_int b) = Fin q \<Longrightarrow>
   py_truediv (PInt a) (PInt b) = Inr (PFloat (Fin q))"
  by (simp add: py_truediv_def num_op_def bind_res_def)

lemma py_mul_float_int:
  "\<bar>c\<bar> < 2 ^ 53 \<Longrightarrow> py_mul (PFloat (Fin q)) (PInt c) = Inr (PFloat (rd (q * of_int c)))"
  by (simp add: py_mul_def num_op_def bind_res_def float_op_def float_of_int_small)

lemma py_add_float_int:
  "\<bar>d\<bar> < 2 ^ 53 \<Longrightarrow> py_add (PFloat (Fin m)) (PInt d) = Inr (PFloat (rd (m + of_int d)))"
  by (simp add: py_add_def num_op_def bind_res_def float_op_def float_of_int_small)

lemma py_add_int_float:
  "\<bar>d\<bar> < 2 ^ 53 \<Longrightarrow> py_add (PInt d) (PFloat (Fin m)) = Inr (PFloat (rd (of_int d + m)))"
  by (simp add: py_add_def num_op_def bind_res_def float_op_def float_of_int_small)

lemma int_conv_float [simp]: "int_conv fs (PFloat (Fin x)) = PInt (trunc_rat x)"
  by (simp add: int_conv_def py_in_def py_eq_def bind_res_def)

lemma trunc_rat_of_int [simp]: "trunc_rat (of_int n) = n"
  by (simp add: trunc_rat_def)

text \<open>The value of \<open>scale\<close> on ints, through the three roundings.\<close>

lemma scale_ints:
  assumes "s0 \<noteq> s1" "\<bar>d1 - d0\<bar> < 2 ^ 53" "\<bar>d0\<bar> < 2 ^ 53"
    and "rd (of_int (min (max v s0) s1 - s0) / of_int (s1 - s0)) = Fin q"
    and "rd (q * of_int (d1 - d0)) = Fin m"
    and "rd (m + of_int d0) = Fin x"
  shows "scale fs (PInt v) (PInt s0, PInt s1) (PInt d0, PInt d1) = Inr (PInt (trunc_rat x))"
  using assms
  by (simp add: scale_def bind_res_def py_truediv_ints py_mul_float_int py_add_float_int)

lemma scale_low:
  assumes "s0 < s1" "v \<le> s0" "\<bar>d1 - d0\<bar> < 2 ^ 53" "\<bar>d0\<bar> < 2 ^ 53"
  shows "scale fs (PInt v) (PInt s0, PInt s1) (PInt d0, PInt d1) = Inr (PInt d0)"
proof -
  have a: "min (max v s0) s1 - s0 = 0" using assms(1,2) by simp
  have 0: "rd 0 = Fin 0" by (simp add: rd_def)
  have ne: "s0 \<noteq> s1" using assms(1) by simp
  have q: "rd (of_int (min (max v s0) s1 - s0) / of_int (s1 - s0)) = Fin 0"
    by (simp add: a 0)
  have m: "rd (0 * of_int (d1 - d0)) = Fin 0" by (simp add: 0)
  have x: "rd (0 + of_int d0) = Fin (of_int d0)"
    using rd_of_int [OF assms(4)] by simp
  have "scale fs (PInt v) (PInt s0, PInt s1) (PInt d0, PInt d1)
      = Inr (PInt (trunc_rat (of_int d0)))"
    by (rule scale_ints [OF ne assms(3,4) q m x])
  then show ?thesis by simp
qed

lemma scale_high:
  assumes "s0 < s1" "s1 \<le> v" "\<bar>d1 - d0\<bar> < 2 ^ 53" "\<bar>d0\<bar> < 2 ^ 53" "\<bar>d1\<bar> < 2 ^ 53"
  shows "scale fs (PInt v) (PInt s0, PInt s1) (PInt d0, PInt d1) = Inr (PInt d1)"
proof -
  have a: "min (max v s0) s1 - s0 = s1 - s0" using assms(1,2) by simp
  have 1: "rd 1 = Fin 1" using rd_of_int [of 1] by simp
  have q: "rd (of_int (min (max v s0) s1 - s0) / of_int (s1 - s0)) = Fin 1"
    using assms(1) by (simp add: a 1)
  have m: "rd (1 * of_int (d1 - d0)) = Fin (of_int (d1 - d0))"
    using rd_of_int [OF assms(3)] by simp
  have x: "rd (of_int (d1 - d0) + of_int d0) = Fin (of_int d1)"
    using rd_of_int [OF assms(5)] by simp
  have ne: "s0 \<noteq> s1" using assms(1) by simp
  have "scale fs (PInt v) (PInt s0, PInt s1) (PInt d0, PInt d1)
      = Inr (PInt (trunc_rat (of_int d1)))"
    by (rule scale_ints [OF ne assms(3,4) q m x])
  then show ?thesis by simp
qed

lemma integral_fraction:
  assumes "0 < B"
  shows "integral (of_int N / of_int B) = (B dvd N)"
proof
  define k where "k = \<lfloor>of_int N / (of_int B :: rat)\<rfloor>"
  assume "integral (of_int N / of_int B)"
  then have "(of_int k :: rat) = of_int N / of_int B"
    unfolding integral_def k_def .
  then have "(of_int N :: rat) = of_int k * of_int B"
    using assms by (simp add: field_simps)
  then have "(of_int N :: rat) = of_int (k * B)" by simp
  then have "N = k * B" by (simp only: of_int_eq_iff)
  then show "B dvd N" by simp
next
  assume "B dvd N"
  then obtain n where "N = B * n" by (auto simp: dvd_def)
  then have "of_int N / (of_int B :: rat) = of_int n" using assms by simp
  then show "integral (of_int N / of_int B)" unfolding integral_def by (simp only: floor_of_int)
qed

lemma scale_near:
  fixes v s0 s1 d0 d1 :: int
  assumes s: "s0 < s1" and b: "\<bar>s0\<bar> \<le> 65536" "\<bar>s1\<bar> \<le> 65536" "\<bar>d0\<bar> \<le> 65536" "\<bar>d1\<bar> \<le> 65536"
  shows "\<exists>r. scale fs (PInt v) (PInt s0, PInt s1) (PInt d0, PInt d1) = Inr (PInt r) \<and>
     (if integral (linear_map v (s0, s1) (d0, d1))
      then r = trunc_rat (linear_map v (s0, s1) (d0, d1)) \<or>
           r = trunc_rat (linear_map v (s0, s1) (d0, d1))
                 - sgn (trunc_rat (linear_map v (s0, s1) (d0, d1)))
      else r = trunc_rat (linear_map v (s0, s1) (d0, d1)))"
proof -
  define a where "a = min (max v s0) s1 - s0"
  define B where "B = s1 - s0"
  define c where "c = d1 - d0"
  define N where "N = a * c + d0 * B"
  have B: "0 < B" "B \<le> 131072" using s b by (simp_all add: B_def)
  have a: "0 \<le> a" "a \<le> B" using s by (simp_all add: a_def B_def)
  have c: "\<bar>c\<bar> \<le> 131072" using b by (simp add: c_def)
  obtain q m x where q: "rd (of_int a / of_int B) = Fin q"
      and m: "rd (q * of_int c) = Fin m" and x: "rd (m + of_int d0) = Fin x"
      and err: "\<bar>x - (of_int a / of_int B * of_int c + of_int d0)\<bar> \<le> 1 / 2 ^ 20"
    using fl3 [of B a c d0] B a c b by (auto simp: abs_if split: if_splits)
  have L: "linear_map v (s0, s1) (d0, d1) = of_int N / of_int B"
    using B by (simp add: linear_map_def N_def a_def B_def c_def field_simps)
  have "(of_int B :: rat) \<le> of_int 131072" using B(2) by (simp only: of_int_le_iff)
  then have "(1::rat) / 131072 \<le> 1 / of_int B" using B(1) by (simp add: field_simps)
  then have near: "\<bar>x - of_int N / of_int B\<bar> < 1 / of_int B"
    using err L by (simp add: linear_map_def a_def B_def c_def)
  have sc: "scale fs (PInt v) (PInt s0, PInt s1) (PInt d0, PInt d1) = Inr (PInt (trunc_rat x))"
    using s b q m x by (intro scale_ints [where q = q and m = m]) (simp_all add: a_def B_def c_def)
  have dv: "B dvd N \<Longrightarrow> trunc_rat (of_int N / of_int B :: rat) = N div B"
    using B(1) by (auto simp: dvd_def)
  show ?thesis
    using trunc_near_fraction [OF B(1) near] sc dv
    by (auto simp: L integral_fraction [OF B(1)])
qed

lemma scale_clamp:
  "s0 \<le> s1 \<Longrightarrow> scale fs (PInt v) (PInt s0, PInt s1) dst =
     scale fs (PInt (min (max v s0) s1)) (PInt s0, PInt s1) dst"
  by (simp add: scale_def bind_res_def)

lemma scale_tens:
  "\<forall>c \<in> set [0..10].
     scale fs (PInt c) (PInt 0, PInt 10) (PInt 100, PInt 200) = Inr (PInt (100 + 10 * c))"
  by code_simp

lemma scale_0_10:
  "scale fs (PInt v) (PInt 0, PInt 10) (PInt 100, PInt 200)
     = Inr (PInt (100 + 10 * min (max v 0) 10))"
proof -
  have "min (max v 0) 10 \<in> set [0..10]" by simp
  then show ?thesis using scale_tens scale_clamp [of 0 10 fs v] by simp
qed

lemma scale_177:
  "scale fs (PInt 0) (PInt (- 20), PInt 20) (PInt 100, PInt 255) = Inr (PInt 177)"
  by code_simp

text \<open>
  Claim C7, as amended. For integer arguments of magnitude at most 65536 with
  \<open>srcMin < srcMax\<close>, \<open>scale\<close> returns an integer; it is the truncation of the exact linear
  map of the clamped value whenever that exact value is not an integer, and when the exact
  value is an integer \<open>n\<close> it is \<open>n\<close> or the neighbour of \<open>n\<close> towards zero (the three
  binary64 roundings can leave the sum just short of \<open>n\<close>). At and below \<open>srcMin\<close> the
  result is \<open>dstMin\<close>, at and above \<open>srcMax\<close> it is \<open>dstMax\<close>. The five listed values
  hold, and \<open>scale(v, (0, 10), (100, 200))\<close> is monotonic in \<open>v\<close>.
\<close>

theorem scale_spec:
  "(s0 < s1 \<and> \<bar>s0\<bar> \<le> 65536 \<and> \<bar>s1\<bar> \<le> 65536 \<and> \<bar>d0\<bar> \<le> 65536 \<and> \<bar>d1\<bar> \<le> 65536 \<longrightarrow>
      (\<exists>r. scale fs (PInt v) (PInt s0, PInt s1) (PInt d0, PInt d1) = Inr (PInt r) \<and>
         (if integral (linear_map v (s0, s1) (d0, d1))
          then r = trunc_rat (linear_map v (s0, s1) (d0, d1)) \<or>
               r = trunc_rat (linear_map v (s0, s1) (d0, d1))
                     - sgn (trunc_rat (linear_map v (s0, s1) (d0, d1)))
          else r = trunc_rat (linear_map v (s0, s1) (d0, d1))) \<and>
         (v \<le> s0 \<longrightarrow> r = d0) \<and> (s1 \<le> v \<longrightarrow> r = d1))) \<and>
   scale fs (PInt (- 5)) (PInt 0, PInt 10) (PInt 100, PInt 200) = Inr (PInt 100) \<and>
   scale fs (PInt 15) (PInt 0, PInt 10) (PInt 100, PInt 200) = Inr (PInt 200) \<and>
   scale fs (PInt 5) (PInt 0, PInt 10) (PInt 100, PInt 200) = Inr (PInt 150) \<and>
   scale fs (PInt 0) (PInt (- 20), PInt 20) (PInt 100, PInt 255) = Inr (PInt 177) \<and>
   scale fs (PInt 0) (PInt 0, PInt 20) (PInt 2000, PInt 5500) = Inr (PInt 2000) \<and>
   (\<forall>a b. a \<le> b \<longrightarrow>
      (\<exists>r r'. scale fs (PInt a) (PInt 0, PInt 10) (PInt 100, PInt 200) = Inr (PInt r) \<and>
               scale fs (PInt b) (PInt 0, PInt 10) (PInt 100, PInt 200) = Inr (PInt r') \<and>
               r \<le> r'))"
proof -
  have general: "\<exists>r. scale fs (PInt v) (PInt s0, PInt s1) (PInt d0, PInt d1) = Inr (PInt r) \<and>
         (if integral (linear_map v (s0, s1) (d0, d1))
          then r = trunc_rat (linear_map v (s0, s1) (d0, d1)) \<or>
               r = trunc_rat (linear_map v (s0, s1) (d0, d1))
                     - sgn (trunc_rat (linear_map v (s0, s1) (d0, d1)))
          else r = trunc_rat (linear_map v (s0, s1) (d0, d1))) \<and>
         (v \<le> s0 \<longrightarrow> r = d0) \<and> (s1 \<le> v \<longrightarrow> r = d1)"
    if s: "s0 < s1" and b: "\<bar>s0\<bar> \<le> 65536" "\<bar>s1\<bar> \<le> 65536" "\<bar>d0\<bar> \<le> 65536" "\<bar>d1\<bar> \<le> 65536"
  proof -
    obtain r where r: "scale fs (PInt v) (PInt s0, PInt s1) (PInt d0, PInt d1) = Inr (PInt r)"
      and near: "if integral (linear_map v (s0, s1) (d0, d1))
          then r = trunc_rat (linear_map v (s0, s1) (d0, d1)) \<or>
               r = trunc_rat (linear_map v (s0, s1) (d0, d1))
                     - sgn (trunc_rat (linear_map v (s0, s1) (d0, d1)))
          else r = trunc_rat (linear_map v (s0, s1) (d0, d1))"
      using scale_near [OF s b] by blast
    have small: "\<bar>d1 - d0\<bar> < 2 ^ 53" "\<bar>d0\<bar> < 2 ^ 53" "\<bar>d1\<bar> < 2 ^ 53" using b by simp_all
    have "r = d0" if "v \<le> s0" using scale_low [OF s that small(1,2), of fs] r by simp
    moreover have "r = d1" if "s1 \<le> v" using scale_high [OF s that small, of fs] r by simp
    ultimately show ?thesis using r near by blast
  qed
  have mono: "\<exists>r r'. scale fs (PInt a) (PInt 0, PInt 10) (PInt 100, PInt 200) = Inr (PInt r) \<and>
               scale fs (PInt b) (PInt 0, PInt 10) (PInt 100, PInt 200) = Inr (PInt r') \<and>
               r \<le> r'" if "a \<le> b" for a b :: int
    using that by (simp add: scale_0_10)
  have e1: "scale fs (PInt (- 5)) (PInt 0, PInt 10) (PInt 100, PInt 200) = Inr (PInt 100)"
    and e2: "scale fs (PInt 15) (PInt 0, PInt 10) (PInt 100, PInt 200) = Inr (PInt 200)"
    and e3: "scale fs (PInt 5) (PInt 0, PInt 10) (PInt 100, PInt 200) = Inr (PInt 150)"
    by (simp_all add: scale_0_10)
  have e5: "scale fs (PInt 0) (PInt 0, PInt 20) (PInt 2000, PInt 5500) = Inr (PInt 2000)"
    by (rule scale_low) simp_all
  show ?thesis using general mono e1 e2 e3 scale_177 e5 by blast
qed

section \<open>Properties of the brightness boost\<close>

lemma py_eq_ints [simp]: "py_eq (PInt a) (PInt b) = (a = b)"
  by (simp add: py_eq_def)

lemma clamp_brightness_range: "1 \<le> clamp_brightness n \<and> clamp_brightness n \<le> 255"
  by (simp add: clamp_brightness_def Let_def)

lemma boost_zero [simp]: "boost_brightness b (PInt 0) = Inr b"
  by (simp add: boost_brightness_def)

lemma boost_near:
  assumes p: "p \<noteq> 0" "\<bar>p\<bar> \<le> 1000000" and b: "\<bar>b\<bar> \<le> 12800"
  shows "\<exists>n. boost_brightness (PInt b) (PInt p) = Inr (PInt (clamp_brightness n)) \<and>
     (if integral (boosted b p)
      then n = trunc_rat (boosted b p) \<or> n = trunc_rat (boosted b p) - sgn (trunc_rat (boosted b p))
      else n = trunc_rat (boosted b p))"
proof -
  define N where "N = b * p + 100 * b"
  obtain q m x where q: "rd (of_int b / of_int 100) = Fin q"
      and m: "rd (q * of_int p) = Fin m" and x: "rd (m + of_int b) = Fin x"
      and err: "\<bar>x - (of_int b / of_int 100 * of_int p + of_int b)\<bar> \<le> 1 / 2 ^ 20"
    using fl3 [of 100 b p b] p b by (auto simp: abs_if split: if_splits)
  have x': "rd (of_int b + m) = Fin x" using x by (simp add: add.commute)
  have small: "\<bar>p\<bar> < 2 ^ 53" "\<bar>b\<bar> < 2 ^ 53" using p b by simp_all
  have bb: "boost_brightness (PInt b) (PInt p) = Inr (PInt (clamp_brightness (trunc_rat x)))"
    using p(1) q m x' small
    by (simp add: boost_brightness_def bind_res_def py_truediv_ints [where q = q]
        py_mul_float_int py_add_int_float)
  have L: "boosted b p = of_int N / of_int 100"
    by (simp add: boosted_def N_def field_simps)
  have near: "\<bar>x - of_int N / of_int 100\<bar> < 1 / of_int 100"
    using err by (simp add: N_def field_simps)
  have i: "integral (boosted b p) = (100 dvd N)"
    unfolding L by (rule integral_fraction) simp
  have dv: "trunc_rat (boosted b p) = N div 100" if "100 dvd N"
  proof -
    from that obtain k where "N = 100 * k" by (rule dvdE)
    then show ?thesis unfolding L by simp
  qed
  have t: "if 100 dvd N
         then trunc_rat x = N div 100 \<or> trunc_rat x = N div 100 - sgn (N div 100)
         else trunc_rat x = trunc_rat (boosted b p)"
    unfolding L by (rule trunc_near_fraction [OF _ near]) simp
  show ?thesis
    by (rule exI [of _ "trunc_rat x"]) (use bb i t dv in auto)
qed

text \<open>
  Claim C6, as amended. For a binding whose mode has the integer brightness \<open>b\<close> (at most
  12800 in magnitude) and whose boost is the integer \<open>p\<close> (at most 1000000 in magnitude), the
  dispatcher sends one turn-on with the mode's kelvin and a brightness \<open>sent\<close>. When
  \<open>p \<noteq> 0\<close>, \<open>sent\<close> is an integer of \<open>[1, 255]\<close>: the clamped truncation of the
  double-precision value of \<open>b + (b / 100 * p)\<close>, which is the truncation of the exact
  \<open>b + b \<times> p / 100\<close> when that is not an integer, and that integer or its neighbour towards
  zero when it is one; \<open>b = 250\<close> with \<open>p = 50\<close> gives 255. When \<open>p = 0\<close> the mode's
  brightness is sent as it is, unclamped.
\<close>

theorem boost_spec:
  assumes mode: "map_of ms (nl_name nl) = Some m"
    and b: "brightness m = PInt b" "\<bar>b\<bar> \<le> 12800"
    and p: "nl_boost_brightness_pct nl = PInt p" "\<bar>p\<bar> \<le> 1000000"
  shows "\<exists>sent. nl_step ms t r nl =
        Inr (Turn_on (case nl_lights_entity nl of Some l \<Rightarrow> l | None \<Rightarrow> lights_entity r)
               (Some (PInt sent)) (Some (kelvin m)) (with_transition t)) \<and>
     (if p = 0 then sent = b
      else 1 \<le> sent \<and> sent \<le> 255 \<and>
        (\<exists>n. sent = clamp_brightness n \<and>
           (if integral (boosted b p)
            then n = trunc_rat (boosted b p) \<or>
                 n = trunc_rat (boosted b p) - sgn (trunc_rat (boosted b p))
            else n = trunc_rat (boosted b p)))) \<and>
     (b = 250 \<and> p = 50 \<longrightarrow> sent = 255)"
proof (cases "p = 0")
  case True
  then show ?thesis using mode b(1) p(1) by (simp add: nl_step_def bind_res_def)
next
  case False
  obtain n where n: "boost_brightness (PInt b) (PInt p) = Inr (PInt (clamp_brightness n))"
    and near: "if integral (boosted b p)
      then n = trunc_rat (boosted b p) \<or> n = trunc_rat (boosted b p) - sgn (trunc_rat (boosted b p))
      else n = trunc_rat (boosted b p)"
    using boost_near [OF False p(2) b(2)] by blast
  have step: "nl_step ms t r nl =
        Inr (Turn_on (case nl_lights_entity nl of Some l \<Rightarrow> l | None \<Rightarrow> lights_entity r)
               (Some (PInt (clamp_brightness n))) (Some (kelvin m)) (with_transition t))"
    using mode b(1) p(1) n by (simp add: nl_step_def bind_res_def)
  have ex: "clamp_brightness n = 255" if "b = 250" "p = 50"
  proof -
    have "boosted b p = 375" using that by (simp add: boosted_def)
    then have "n = 375 \<or> n = 374" using near by (auto simp: integral_def trunc_rat_def)
    then show ?thesis by (auto simp: clamp_brightness_def)
  qed
  show ?thesis
    using step near ex False clamp_brightness_range [of n] by auto
qed

section \<open>Properties of the decision engine\<close>

lemma map_of_replace: "map_of xs n = Some r \<Longrightarrow>
   map_of (map (\<lambda>(k, v). if k = n then (k, r') else (k, v)) xs) n = Some r'"
  by (induction xs) (auto split: if_splits)

lemma map_of_put_room:
  "map_of (rooms a) n = Some r \<Longrightarrow> map_of (rooms (put_room a n r')) n = Some r'"
  by (simp add: put_room_def map_of_replace)

lemma calls_put_room [simp]: "calls (put_room a n r) = calls a"
  by (simp add: put_room_def)

lemma rooms_emit [simp]: "rooms (emit a cs) = rooms a"
  by (simp add: emit_def)

lemma calls_emit [simp]: "calls (emit a cs) = calls a @ cs"
  by (simp add: emit_def)

lemma rooms_set_light: "rooms (snd (set_light e a n t)) = rooms a"
  by (auto simp: set_light_def Let_def split: option.splits sum.splits list.splits prod.splits)



lemma force_loop_iff:
  "force_loop e ss = Inr b \<Longrightarrow> b = (\<exists>s \<in> set ss. scene_forces e s)"
  by (induction ss) (auto simp: scene_forces_def split: option.splits if_splits)

lemma is_light_on_refresh_occupancy [simp]:
  "is_light_on (refresh_occupancy e r) = is_light_on r"
  by (simp add: refresh_occupancy_def split: option.splits)

lemma is_light_on_refresh_low_light:
  "refresh_low_light e r = Inr r' \<Longrightarrow> is_light_on r' = is_light_on r"
  by (auto simp: refresh_low_light_def bind_res_def split: option.splits sum.splits)


lemma refresh_occupancy_fields [simp]:
  "luminance_entity (refresh_occupancy e r) = luminance_entity r"
  "luminance_limit (refresh_occupancy e r) = luminance_limit r"
  "luminance_hysteresis (refresh_occupancy e r) = luminance_hysteresis r"
  "low_light (refresh_occupancy e r) = low_light r"
  "hight_luminance_off_light (refresh_occupancy e r) = hight_luminance_off_light r"
  "scenes (refresh_occupancy e r) = scenes r"
  by (simp_all add: refresh_occupancy_def split: option.splits)

lemma refresh_low_light_fields:
  assumes "refresh_low_light e r = Inr r'"
  shows "occupancy r' = occupancy r" "scenes r' = scenes r"
    "hight_luminance_off_light r' = hight_luminance_off_light r"
  using assms
  by (auto simp: refresh_low_light_def bind_res_def split: option.splits sum.splits)

lemma low_light_decide [simp]: "low_light (decide f t r) = low_light r"
  by (simp add: decide_def)

text \<open>The room after an evaluation, whatever the evaluation raised.\<close>

lemma set_is_light_on_cases:
  assumes "map_of (rooms a) n = Some r"
  obtains (low) err where "refresh_low_light e (refresh_occupancy e r) = Inl err"
      "set_is_light_on e a n trig = (Some err, put_room a n (refresh_occupancy e r))"
  | (force) r2 err where "refresh_low_light e (refresh_occupancy e r) = Inr r2"
      "force_light_on e r2 = Inl err"
      "set_is_light_on e a n trig = (Some err, put_room a n r2)"
  | (quiet) r2 f where "refresh_low_light e (refresh_occupancy e r) = Inr r2"
      "force_light_on e r2 = Inr f"
      "\<not> (trig \<in> set [''init'', ''scene'', ''natural_lighting'']
          \<or> is_light_on r \<noteq> is_light_on (decide f trig r2))"
      "set_is_light_on e a n trig = (None, put_room a n (decide f trig r2))"
  | (dispatch) r2 f where "refresh_low_light e (refresh_occupancy e r) = Inr r2"
      "force_light_on e r2 = Inr f"
      "trig \<in> set [''init'', ''scene'', ''natural_lighting'']
          \<or> is_light_on r \<noteq> is_light_on (decide f trig r2)"
      "set_is_light_on e a n trig =
         set_light e (put_room a n (decide f trig r2)) n
           (if f \<and> trig = ''scene'' \<and> \<not> is_light_on r then ''occupancy'' else trig)"
proof (cases "refresh_low_light e (refresh_occupancy e r)")
  case (Inl err)
  then show ?thesis using assms low by (simp add: set_is_light_on_def)
next
  case (Inr r2)
  note r2 = this
  have old: "is_light_on r2 = is_light_on r"
    using is_light_on_refresh_low_light [OF r2] by simp
  show ?thesis
  proof (cases "force_light_on e r2")
    case (Inl err)
    then show ?thesis using assms r2 force by (simp add: set_is_light_on_def)
  next
    case (Inr f)
    show ?thesis
    proof (cases "trig \<in> set [''init'', ''scene'', ''natural_lighting'']
          \<or> is_light_on r \<noteq> is_light_on (decide f trig r2)")
      case True
      then show ?thesis using assms r2 Inr old
        by (intro dispatch [of r2 f]) (auto simp: set_is_light_on_def Let_def)
    next
      case False
      then show ?thesis using assms r2 Inr old
        by (intro quiet [of r2 f]) (auto simp: set_is_light_on_def Let_def)
    qed
  qed
qed

lemma room_after_set_light:
  "map_of (rooms a) n = Some r \<Longrightarrow>
   map_of (rooms (snd (set_light e (put_room a n r') n t))) n = Some r'"
  by (simp add: rooms_set_light map_of_put_room)

lemma refresh_low_light_ints:
  assumes "sensor (luminance_entity r) = Some s"
    and "int_conv (float_str e) (luminance_limit r) = PInt L"
    and "int_conv (float_str e) (luminance_hysteresis r) = PInt H"
    and "int_conv (float_str e) (get_state e s) = PInt R"
  shows "refresh_low_light e r =
     Inr (r\<lparr>low_light := (R \<le> (if low_light r then L + H else L - H))\<rparr>)"
  using assms by (simp add: refresh_low_light_def bind_res_def)

text \<open>
  Claim C1, as amended. The configured limit, the configured hysteresis and the reading
  are each converted by \<open>int_conv\<close> on its own; let them convert to the integers \<open>L\<close>,
  \<open>H\<close> and \<open>R\<close>. For a room with a luminance sensor, an evaluation then sets the low-light
  flag to true iff \<open>R\<close> is at most the effective threshold: \<open>L + H\<close> when the flag was true,
  \<open>L - H\<close> when it was false. With \<open>L = 10\<close> and \<open>H = 2\<close>, a true flag stays true until
  \<open>R\<close> exceeds 12, and a false flag stays false until \<open>R\<close> is at most 8. The flag is
  assigned even when a later step of the evaluation raises.
\<close>

theorem low_light_hysteresis:
  assumes room: "map_of (rooms a) n = Some r"
    and lum: "sensor (luminance_entity r) = Some s"
    and L: "int_conv (float_str e) (luminance_limit r) = PInt L"
    and H: "int_conv (float_str e) (luminance_hysteresis r) = PInt H"
    and R: "int_conv (float_str e) (get_state e s) = PInt R"
  shows "\<exists>r'. map_of (rooms (snd (set_is_light_on e a n trig))) n = Some r' \<and>
     low_light r' = (R \<le> (if low_light r then L + H else L - H)) \<and>
     (L = 10 \<and> H = 2 \<longrightarrow> low_light r' = (if low_light r then \<not> 12 < R else R \<le> 8))"
proof -
  let ?r1 = "refresh_occupancy e r"
  let ?r2 = "?r1\<lparr>low_light := (R \<le> (if low_light r then L + H else L - H))\<rparr>"
  have r2: "refresh_low_light e ?r1 = Inr ?r2"
    using refresh_low_light_ints [of ?r1 s e L H R] lum L H R by simp
  have *: "\<exists>r'. map_of (rooms (snd (set_is_light_on e a n trig))) n = Some r' \<and>
     low_light r' = low_light ?r2"
    using room
  proof (cases rule: set_is_light_on_cases [where e = e and trig = trig])
    case (low err)
    then show ?thesis using r2 by simp
  next
    case (force r2 err)
    then show ?thesis using r2 room by (auto simp: map_of_put_room)
  next
    case (quiet r2 f)
    then show ?thesis using r2 room by (auto simp: map_of_put_room)
  next
    case (dispatch r2 f)
    then show ?thesis using r2 room by (auto simp: room_after_set_light)
  qed
  then show ?thesis by auto
qed

lemma forced_on:
  assumes room: "map_of (rooms a) n = Some r"
    and ss: "scenes r = Some ss" "s \<in> set ss" "scene_forces e s"
    and ok: "fst (set_is_light_on e a n trig) = None"
  shows "\<exists>r'. map_of (rooms (snd (set_is_light_on e a n trig))) n = Some r' \<and> is_light_on r'"
  using room
proof (cases rule: set_is_light_on_cases [where e = e and trig = trig])
  case (low err)
  then show ?thesis using ok by simp
next
  case (force r2 err)
  then show ?thesis using ok by simp
next
  case (quiet r2 f)
  have "scenes r2 = Some ss" using refresh_low_light_fields(2) [OF quiet(1)] ss by simp
  then have "f" using force_loop_iff [of e ss f] quiet(2) ss by (auto simp: force_light_on_def)
  then show ?thesis using quiet room by (auto simp: map_of_put_room decide_def)
next
  case (dispatch r2 f)
  have "scenes r2 = Some ss" using refresh_low_light_fields(2) [OF dispatch(1)] ss by simp
  then have "f" using force_loop_iff [of e ss f] dispatch(2) ss by (auto simp: force_light_on_def)
  then show ?thesis using dispatch room by (auto simp: room_after_set_light decide_def)
qed

text \<open>
  Claim C5. If a scene of the room forces the light on, an evaluation that raises nothing
  sets \<open>is_light_on\<close> to true, whatever the occupancy and low-light flags are.
\<close>

theorem force_on_overrides:
  assumes "map_of (rooms a) n = Some r"
    and "scenes r = Some ss" "s \<in> set ss" "scene_forces e s"
    and "fst (set_is_light_on e a n trig) = None"
  shows "\<exists>r'. map_of (rooms (snd (set_is_light_on e a n trig))) n = Some r' \<and> is_light_on r'"
  using assms by (rule forced_on)

text \<open>
  Claim C3. In an evaluation where no scene forces the light on, \<open>is_light_on\<close> becomes
  (occupancy and low-light), with the refreshed flags, exactly when the room is not on with
  abundant light, or turns off on high luminance, or the trigger is \<^verbatim>\<open>occupancy\<close>;
  otherwise it is unchanged.
\<close>

theorem recompute_rule:
  assumes room: "map_of (rooms a) n = Some r"
    and ok: "fst (set_is_light_on e a n trig) = None"
    and noforce: "\<forall>s \<in> set (room_scenes r). \<not> scene_forces e s"
    and after: "map_of (rooms (snd (set_is_light_on e a n trig))) n = Some r'"
  shows "is_light_on r' =
     (if \<not> (is_light_on r \<and> \<not> low_light r') \<or> hight_luminance_off_light r \<or> trig = ''occupancy''
      then occupancy r' \<and> low_light r' else is_light_on r)"
proof -
  have dec: "\<not> f \<and> r' = decide f trig r2"
    if r2: "refresh_low_light e (refresh_occupancy e r) = Inr r2"
      and f: "force_light_on e r2 = Inr f"
      and r': "map_of (rooms (snd (set_is_light_on e a n trig))) n = Some (decide f trig r2)"
    for r2 f
  proof -
    have "scenes r2 = scenes r" using refresh_low_light_fields(2) [OF r2] by simp
    then have "\<not> f" using f noforce force_loop_iff [of e "room_scenes r" f]
      by (auto simp: force_light_on_def room_scenes_def split: option.splits)
    then show ?thesis using r' after by simp
  qed
  have fields: "is_light_on r2 = is_light_on r"
      "hight_luminance_off_light r2 = hight_luminance_off_light r"
    if r2: "refresh_low_light e (refresh_occupancy e r) = Inr r2" for r2
    using is_light_on_refresh_low_light [OF r2] refresh_low_light_fields(3) [OF r2] by simp_all
  show ?thesis using room
  proof (cases rule: set_is_light_on_cases [where e = e and trig = trig])
    case (low err)
    then show ?thesis using ok by simp
  next
    case (force r2 err)
    then show ?thesis using ok by simp
  next
    case (quiet r2 f)
    then have "\<not> f \<and> r' = decide f trig r2"
      using dec [of r2 f] room by (simp add: map_of_put_room)
    then show ?thesis using fields [OF quiet(1)] by (auto simp: decide_def)
  next
    case (dispatch r2 f)
    then have "\<not> f \<and> r' = decide f trig r2"
      using dec [of r2 f] room by (simp add: room_after_set_light)
    then show ?thesis using fields [OF dispatch(1)] by (auto simp: decide_def)
  qed
qed



section \<open>Properties of the sun-elevation handler\<close>

lemma rooms_dispatch_all: "rooms (snd (dispatch_all e t a ns)) = rooms a"
proof (induction ns arbitrary: a)
  case Nil
  then show ?case by simp
next
  case (Cons n ns)
  obtain err a' where sl: "set_light e a n t = (err, a')" by (cases "set_light e a n t")
  then have "rooms a' = rooms a" using rooms_set_light [of e a n t] by simp
  then show ?case using Cons [of a'] sl by (cases err) simp_all
qed

lemma redrive_dispatch_all:
  "set ns \<subseteq> fst ` set (rooms a) \<Longrightarrow>
   redrive e a ns = dispatch_all e ''natural_lighting'' a
     (filter (\<lambda>n. case map_of (rooms a) n of Some r \<Rightarrow> follows_sun r | None \<Rightarrow> False) ns)"
proof (induction ns arbitrary: a)
  case Nil
  then show ?case by simp
next
  case (Cons n ns)
  then obtain r where r: "map_of (rooms a) n = Some r"
    by (cases "map_of (rooms a) n") (auto simp: map_of_eq_None_iff)
  show ?case
  proof (cases "follows_sun r")
    case False
    then show ?thesis using Cons r by simp
  next
    case True
    obtain err a' where sl: "set_light e a n ''natural_lighting'' = (err, a')"
      by (cases "set_light e a n ''natural_lighting''")
    then have ra: "rooms a' = rooms a" using rooms_set_light [of e a n "''natural_lighting''"] by simp
    show ?thesis
    proof (cases err)
      case None
      then show ?thesis using Cons.IH [of a'] Cons.prems r True sl ra by simp
    next
      case (Some x)
      then show ?thesis using r True sl by simp
    qed
  qed
qed

lemma filter_keys:
  "distinct (map fst xs) \<Longrightarrow>
   filter (\<lambda>n. case map_of xs n of Some r \<Rightarrow> P r | None \<Rightarrow> False) (map fst xs)
     = map fst (filter (\<lambda>(n, r). P r) xs)"
proof -
  assume d: "distinct (map fst xs)"
  have "filter (\<lambda>n. case map_of xs n of Some r \<Rightarrow> P r | None \<Rightarrow> False) (map fst xs)
      = map fst (filter ((\<lambda>n. case map_of xs n of Some r \<Rightarrow> P r | None \<Rightarrow> False) \<circ> fst) xs)"
    by (simp add: filter_map)
  also have "filter ((\<lambda>n. case map_of xs n of Some r \<Rightarrow> P r | None \<Rightarrow> False) \<circ> fst) xs
      = filter (\<lambda>(n, r). P r) xs"
    using d by (intro filter_cong) (auto simp: map_of_eq_Some_iff)
  finally show ?thesis .
qed

lemma update_modes_ok:
  "update_modes fs c ms = (ms', None) \<Longrightarrow>
   list_all2 (\<lambda>(n, m) (n', m'). n' = n \<and> recomputed fs c m m') ms ms'"
proof (induction ms arbitrary: ms')
  case Nil
  then show ?case by simp
next
  case (Cons x ms)
  obtain n m where x: "x = (n, m)" by (cases x)
  from Cons.prems obtain b k rest where
    b: "scale fs (sun_elevation c)
          (min_elevation_for_brightness c, max_elevation_for_brightness c)
          (min_brightness m, max_brightness m) = Inr b"
    and k: "scale fs (sun_elevation c)
          (min_elevation_for_kelvin c, max_elevation_for_kelvin c)
          (min_kelvin m, max_kelvin m) = Inr k"
    and rest: "update_modes fs c ms = (rest, None)"
    and ms': "ms' = (n, m\<lparr>brightness := b, kelvin := k\<rparr>) # rest"
    unfolding x by (auto split: sum.splits prod.splits)
  show ?case using Cons.IH [OF rest] b k unfolding ms' x
    by (simp add: recomputed_def)
qed

lemma rooms_callback: "rooms (snd (callback_sun_elevation e a new)) = rooms a"
proof -
  have "rooms (snd (redrive e a' ns)) = rooms a'" for a' ns
  proof (induction ns arbitrary: a')
    case Nil
    then show ?case by simp
  next
    case (Cons n ns)
    obtain err a'' where sl: "set_light e a' n ''natural_lighting'' = (err, a'')"
      by (cases "set_light e a' n ''natural_lighting''")
    then have "rooms a'' = rooms a'" using rooms_set_light [of e a' n "''natural_lighting''"] by simp
    then show ?case using Cons [of a''] Cons [of a'] sl
      by (cases err) (auto split: option.splits)
  qed
  then show ?thesis
    by (auto simp: callback_sun_elevation_def Let_def split: option.splits prod.splits)
qed

text \<open>
  Claim C8. The handler of a change of the sun's elevation leaves the rooms, hence every
  occupancy, low-light and is-light-on flag, as they were. When it raises nothing (and the
  room names are distinct, as the keys of a dict are), every mode has its brightness and
  kelvin recomputed for the new elevation, and then exactly the rooms that have bindings and
  whose light is on go through the dispatcher, in their order, with the trigger
  \<^verbatim>\<open>natural_lighting\<close>.
\<close>

theorem sun_elevation_handler:
  "rooms (snd (callback_sun_elevation e a new)) = rooms a \<and>
   (distinct (map fst (rooms a)) \<and> fst (callback_sun_elevation e a new) = None \<longrightarrow>
     (\<exists>c c'. app_natural_lighting a = Some c \<and>
        set_natural_lighting (float_str e) (c\<lparr>sun_elevation := int_conv (float_str e) new\<rparr>)
          = (None, c') \<and>
        list_all2 (\<lambda>(n, m) (n', m'). n' = n \<and>
            recomputed (float_str e) (c\<lparr>sun_elevation := int_conv (float_str e) new\<rparr>) m m')
          (modes c) (modes c') \<and>
        callback_sun_elevation e a new =
          dispatch_all e ''natural_lighting'' (a\<lparr>app_natural_lighting := Some c'\<rparr>) (redriven a)))"
proof (intro conjI impI)
  show "rooms (snd (callback_sun_elevation e a new)) = rooms a" by (rule rooms_callback)
next
  assume h: "distinct (map fst (rooms a)) \<and> fst (callback_sun_elevation e a new) = None"
  then obtain c where c: "app_natural_lighting a = Some c"
    by (cases "app_natural_lighting a") (auto simp: callback_sun_elevation_def)
  define c1 where "c1 = c\<lparr>sun_elevation := int_conv (float_str e) new\<rparr>"
  obtain err c' where snl: "set_natural_lighting (float_str e) c1 = (err, c')"
    by (cases "set_natural_lighting (float_str e) c1")
  have err: "err = None" using h c snl
    by (cases err) (auto simp: callback_sun_elevation_def c1_def)
  define a1 where "a1 = a\<lparr>app_natural_lighting := Some c'\<rparr>"
  have cb: "callback_sun_elevation e a new = redrive e a1 (map fst (rooms a1))"
    using c snl err by (simp add: callback_sun_elevation_def c1_def a1_def)
  have ra: "rooms a1 = rooms a" by (simp add: a1_def)
  have "redrive e a1 (map fst (rooms a1)) =
      dispatch_all e ''natural_lighting'' a1
        (filter (\<lambda>n. case map_of (rooms a1) n of Some r \<Rightarrow> follows_sun r | None \<Rightarrow> False)
           (map fst (rooms a1)))"
    by (rule redrive_dispatch_all) simp
  also have "\<dots> = dispatch_all e ''natural_lighting'' a1 (redriven a)"
    using h filter_keys [of "rooms a" follows_sun] by (simp add: ra redriven_def)
  finally have d: "callback_sun_elevation e a new = dispatch_all e ''natural_lighting'' a1 (redriven a)"
    using cb by simp
  obtain ms where um: "update_modes (float_str e) c1 (modes c1) = (ms, None)"
      and c': "c' = c1\<lparr>modes := ms\<rparr>"
    using snl err by (auto simp: set_natural_lighting_def split: prod.splits)
  have "list_all2 (\<lambda>(n, m) (n', m'). n' = n \<and> recomputed (float_str e) c1 m m') (modes c) (modes c')"
    using update_modes_ok [OF um] by (simp add: c' c1_def)
  then show "\<exists>c c'. app_natural_lighting a = Some c \<and>
        set_natural_lighting (float_str e) (c\<lparr>sun_elevation := int_conv (float_str e) new\<rparr>)
          = (None, c') \<and>
        list_all2 (\<lambda>(n, m) (n', m'). n' = n \<and>
            recomputed (float_str e) (c\<lparr>sun_elevation := int_conv (float_str e) new\<rparr>) m m')
          (modes c) (modes c') \<and>
        callback_sun_elevation e a new =
          dispatch_all e ''natural_lighting'' (a\<lparr>app_natural_lighting := Some c'\<rparr>) (redriven a)"
    using c snl err d unfolding c1_def a1_def by blast
qed

section \<open>Properties of the initialization\<close>













section \<open>The theorems on the example installation\<close>

text \<open>
  The exact linear map of 57 from (0, 100) onto (0, 100) is 57; the floats give
  \<open>57 / 100 * 100 = 56.99999999999999\<close>, and \<open>scale\<close> returns 56.
\<close>

theorem scale_counterexample:
  "scale float_str_plain (PInt 57) (PInt 0, PInt 100) (PInt 0, PInt 100) = Inr (PInt 56) \<and>
   trunc_rat (linear_map 57 (0, 100) (0, 100)) = 57"
  by code_simp

theorem scale_spec_witness:
  "(scale float_str_plain (PInt 57) (PInt 0, PInt 100) (PInt 0, PInt 100) = Inr (PInt 57) \<or>
    scale float_str_plain (PInt 57) (PInt 0, PInt 100) (PInt 0, PInt 100) = Inr (PInt 56)) \<and>
   (\<exists>r r'. scale float_str_plain (PInt 3) (PInt 0, PInt 10) (PInt 100, PInt 200) = Inr (PInt r) \<and>
      scale float_str_plain (PInt 7) (PInt 0, PInt 10) (PInt 100, PInt 200) = Inr (PInt r') \<and>
      r \<le> r')"
proof -
  have L: "linear_map 57 (0, 100) (0, 100) = 57" by (simp add: linear_map_def)
  have i: "integral (57 :: rat)" by (simp add: integral_def)
  have t: "trunc_rat (57 :: rat) = 57" by (simp add: trunc_rat_def)
  have "scale float_str_plain (PInt 57) (PInt 0, PInt 100) (PInt 0, PInt 100) = Inr (PInt 57) \<or>
    scale float_str_plain (PInt 57) (PInt 0, PInt 100) (PInt 0, PInt 100) = Inr (PInt 56)"
    using scale_spec [of 0 100 0 100 float_str_plain 57] by (auto simp: L i t)
  moreover have "\<exists>r r'.
      scale float_str_plain (PInt 3) (PInt 0, PInt 10) (PInt 100, PInt 200) = Inr (PInt r) \<and>
      scale float_str_plain (PInt 7) (PInt 0, PInt 10) (PInt 100, PInt 200) = Inr (PInt r') \<and>
      r \<le> r'"
    using scale_spec [of 0 100 0 100 float_str_plain 57] by simp
  ultimately show ?thesis by (rule conjI)
qed


text \<open>
  The living room has limit 10 and hysteresis 2 and is not in low light; its sensor reads
  10, which is at most the limit, and the flag stays false. The study has limit 10.5 and
  hysteresis 0.5 and is in low light; its sensor reads 11, which is at most their sum, but
  each is truncated before the sum, the threshold is 10, and the flag becomes false.
\<close>

theorem low_light_counterexample:
  "map_of (rooms demo_app) ''living'' = Some living_room \<and>
   luminance_limit living_room = PInt 10 \<and> luminance_hysteresis living_room = PInt 2 \<and>
   \<not> low_light living_room \<and>
   int_conv (float_str demo_env) (get_state demo_env ''sensor.living_lum'') = PInt 10 \<and>
   map_option low_light
     (map_of (rooms (snd (set_is_light_on demo_env demo_app ''living'' ''low_light''))) ''living'')
     = Some False \<and>
   map_of (rooms study_app) ''study'' = Some study_room \<and>
   luminance_limit study_room = PFloat (Fin (21 / 2)) \<and>
   luminance_hysteresis study_room = PFloat (Fin (1 / 2)) \<and>
   low_light study_room \<and>
   int_conv (float_str demo_env) (get_state demo_env ''sensor.study_lum'') = PInt 11 \<and>
   int_conv (float_str demo_env) (luminance_limit study_room) = PInt 10 \<and>
   int_conv (float_str demo_env) (luminance_hysteresis study_room) = PInt 0 \<and>
   set_is_light_on demo_env study_app ''study'' ''low_light'' =
     (None, put_room study_app ''study'' (study_room\<lparr>low_light := False\<rparr>))"
  by code_simp

theorem low_light_hysteresis_witness:
  "\<exists>r'. map_of (rooms (snd (set_is_light_on demo_env demo_app ''living'' ''low_light'')))
          ''living'' = Some r' \<and> \<not> low_light r'"
proof -
  have 1: "map_of (rooms demo_app) ''living'' = Some living_room" by code_simp
  have 2: "sensor (luminance_entity living_room) = Some ''sensor.living_lum''" by code_simp
  have 3: "int_conv (float_str demo_env) (luminance_limit living_room) = PInt 10" by code_simp
  have 4: "int_conv (float_str demo_env) (luminance_hysteresis living_room) = PInt 2" by code_simp
  have 5: "int_conv (float_str demo_env) (get_state demo_env ''sensor.living_lum'') = PInt 10"
    by code_simp
  have 6: "\<not> low_light living_room" by code_simp
  show ?thesis
    using low_light_hysteresis [OF 1 2 3 4 5, of "''low_light''"] 6 by auto
qed

theorem force_on_overrides_witness:
  "\<exists>r'. map_of (rooms (snd (set_is_light_on demo_env demo_app ''cinema'' ''scene'')))
          ''cinema'' = Some r' \<and> is_light_on r' \<and> \<not> occupancy r' \<and> \<not> low_light r'"
proof -
  have 1: "map_of (rooms demo_app) ''cinema'' = Some cinema_room" by code_simp
  have 2: "scenes cinema_room = Some [movie_scene]" by code_simp
  have 3: "movie_scene \<in> set [movie_scene]" by simp
  have 4: "scene_forces demo_env movie_scene" by code_simp
  have 5: "fst (set_is_light_on demo_env demo_app ''cinema'' ''scene'') = None" by code_simp
  have 6: "map_option (\<lambda>r. (occupancy r, low_light r))
      (map_of (rooms (snd (set_is_light_on demo_env demo_app ''cinema'' ''scene''))) ''cinema'')
      = Some (False, False)" by code_simp
  show ?thesis
    using force_on_overrides [OF 1 2 3 4 5] 6 by auto
qed

theorem recompute_rule_witness:
  "map_of (rooms (snd (set_is_light_on demo_env demo_app ''hall'' ''occupancy''))) ''hall''
     = Some (hall_room\<lparr>is_light_on := True\<rparr>) \<and>
   is_light_on (hall_room\<lparr>is_light_on := True\<rparr>) =
     (occupancy (hall_room\<lparr>is_light_on := True\<rparr>) \<and> low_light (hall_room\<lparr>is_light_on := True\<rparr>))"
proof -
  have 1: "map_of (rooms demo_app) ''hall'' = Some hall_room" by code_simp
  have 2: "fst (set_is_light_on demo_env demo_app ''hall'' ''occupancy'') = None" by code_simp
  have 3: "\<forall>s \<in> set (room_scenes hall_room). \<not> scene_forces demo_env s" by code_simp
  have 4: "map_of (rooms (snd (set_is_light_on demo_env demo_app ''hall'' ''occupancy''))) ''hall''
     = Some (hall_room\<lparr>is_light_on := True\<rparr>)" by code_simp
  show ?thesis
    using recompute_rule [OF 1 2 3 4] 4 by simp
qed


text \<open>
  With a minimum brightness of 0 and the sun at -25.5 degrees the mode's brightness is 0;
  the patio's binding has no boost, and the brightness sent is 0, not 1. With a brightness
  of 220 and a boost of -50 the floats give \<open>220 / 100 * -50 = -110.00000000000001\<close> and the
  brightness is 109, not 110.
\<close>

theorem boost_counterexample:
  "calls (snd (callback_sun_elevation demo_env garden_app (PFloat (Fin (- 51 / 2)))))
     = [Turn_on ''light.patio'' (Some (PInt 0)) (Some (PInt 2000)) (Some (PInt 10))] \<and>
   clamp_brightness (trunc_rat (boosted 0 0)) = 1 \<and>
   boost_brightness (PInt 220) (PInt (- 50)) = Inr (PInt 109) \<and>
   clamp_brightness (trunc_rat (boosted 220 (- 50))) = 110"
  by code_simp

theorem boost_spec_witness:
  "nl_step (modes sky) (PInt 10) porch_room boosted_binding =
     Inr (Turn_on ''light.porch'' (Some (PInt 255)) (Some (PInt 5400)) (Some (PInt 10)))"
proof -
  have 1: "map_of (modes sky) (nl_name boosted_binding) = Some default_mode" by code_simp
  have 2: "brightness default_mode = PInt 250" by code_simp
  have 3: "\<bar>250 :: int\<bar> \<le> 12800" by simp
  have 4: "nl_boost_brightness_pct boosted_binding = PInt 50" by code_simp
  have 5: "\<bar>50 :: int\<bar> \<le> 1000000" by simp
  have 6: "(case nl_lights_entity boosted_binding of Some l \<Rightarrow> l | None \<Rightarrow> lights_entity porch_room)
      = ''light.porch''" by code_simp
  have 7: "kelvin default_mode = PInt 5400" by code_simp
  have 8: "with_transition (PInt 10) = Some (PInt 10)" by code_simp
  show ?thesis
    using boost_spec [OF 1 2 3 4 5, of "PInt 10" porch_room] unfolding 6 7 8 by auto
qed

theorem sun_elevation_handler_witness:
  "rooms (snd (callback_sun_elevation demo_env garden_app (PFloat (Fin (- 51 / 2)))))
     = rooms garden_app \<and>
   callback_sun_elevation demo_env garden_app (PFloat (Fin (- 51 / 2))) =
     dispatch_all demo_env ''natural_lighting''
       (garden_app\<lparr>app_natural_lighting := Some (snd (set_natural_lighting float_str_plain
            (sky\<lparr>sun_elevation := PInt (- 25)\<rparr>)))\<rparr>)
       [''patio'']"
proof -
  have 1: "distinct (map fst (rooms garden_app))" by code_simp
  have 2: "fst (callback_sun_elevation demo_env garden_app (PFloat (Fin (- 51 / 2)))) = None"
    by code_simp
  have 3: "app_natural_lighting garden_app = Some sky" by code_simp
  have 4: "float_str demo_env = float_str_plain" by (simp add: demo_env_def)
  have 5: "int_conv float_str_plain (PFloat (Fin (- 51 / 2))) = PInt (- 25)" by code_simp
  have 6: "redriven garden_app = [''patio'']" by code_simp
  show ?thesis
    using sun_elevation_handler [of demo_env garden_app "PFloat (Fin (- 51 / 2))"] 1 2
    unfolding 3 4 5 6 by auto
qed


text \<open>
  Claim C2 fails on the code. The sentinels give 0, but a string that is not a number, and
  \<^verbatim>\<open>None\<close>, are returned as they are; the comparison with the threshold then raises
  \<^verbatim>\<open>TypeError\<close> and the evaluation of the cellar fails.
\<close>

theorem int_conv_returns_value:
  "float_str_plain ''abc'' = None \<and>
   int_conv float_str_plain (PStr ''abc'') = PStr ''abc'' \<and>
   int_conv float_str_plain PNone = PNone \<and>
   int_conv float_str_plain (PStr ''unknown'') = PInt 0 \<and>
   int_conv float_str_plain (PStr ''unavailable'') = PInt 0 \<and>
   get_state demo_env ''sensor.cellar_lum'' = PStr ''abc'' \<and>
   fst (set_is_light_on demo_env cellar_app ''cellar'' ''low_light'') = Some TypeError"
  by code_simp

text \<open>
  Claim C9 fails on the code. The attic has a scene binding without its trigger keys, so its
  evaluation raises \<^verbatim>\<open>KeyError\<close>; the initialization pass ends there and the hall, which
  would have been turned on, is never evaluated. The pass over the rooms after a change of
  the sun's elevation ends in the same way.
\<close>

theorem init_pass_stops:
  "init_pass demo_env attic_app [''attic'', ''hall''] = (Some KeyError, attic_app) \<and>
   init_pass demo_env attic_app [''hall''] =
     (None, emit (put_room attic_app ''hall'' (hall_room\<lparr>is_light_on := True\<rparr>))
              [Turn_on ''light.hall'' None None None]) \<and>
   redrive demo_env loft_app [''attic'', ''patio''] = (Some KeyError, loft_app) \<and>
   redrive demo_env loft_app [''patio''] =
     (None, emit loft_app
              [Turn_on ''light.patio'' (Some (PInt 250)) (Some (PInt 5400)) (Some (PInt 10))])"
  by code_simp

end
